theory Spec2Isabelle
  imports Main "HOL-Library.Word"
begin

unbundle bit_operations_syntax

section \<open>Strings and the interpreter's Unicode tables\<close>

text \<open>
  A Python \<open>str\<close> is a sequence of Unicode code points; \<open>len\<close> counts code points.
  A code point is a natural number, and \<open>ustr\<close> reads an ASCII literal as such a string.
\<close>

type_synonym ustring = "nat list"

definition ustr :: "string \<Rightarrow> ustring" where
  "ustr s = map of_char s"

text \<open>
  The source relies on three services of the interpreter whose tables are not part of the
  repository: the decimal-digit property (used by \<open>\d\<close> and by \<open>int\<close>), the
  white-space property (used by \<open>int\<close>) and the lowercase mapping (used by
  \<open>str.lower\<close>). They are parameters of the model, and only asked about code points
  from 128 on. Below 128 the behaviour is fixed and written out.
  \<^item> \<open>decimal c\<close>: the digit value of a non-ASCII decimal digit (category Nd);
  \<^item> \<open>is_space c\<close>: whether a non-ASCII code point is white space;
  \<^item> \<open>lower_full c\<close>: the full lowercase mapping of a non-ASCII code point;
  \<^item> \<open>final_sigma s i\<close>: whether the capital sigma at index \<open>i\<close> of \<open>s\<close> ends a word;
  \<^item> \<open>max_str_digits\<close>: the limit on the digits \<open>int\<close> converts, 0 for no limit.
\<close>

record py_env =
  decimal :: "nat \<Rightarrow> nat option"
  is_space :: "nat \<Rightarrow> bool"
  lower_full :: "nat \<Rightarrow> ustring"
  final_sigma :: "ustring \<Rightarrow> nat \<Rightarrow> bool"
  max_str_digits :: nat

definition to_decimal :: "py_env \<Rightarrow> nat \<Rightarrow> nat option" where
  "to_decimal env c =
     (if c < 128 then (if 48 \<le> c \<and> c \<le> 57 then Some (c - 48) else None)
      else (case decimal env c of
              None \<Rightarrow> None
            | Some d \<Rightarrow> if d < 10 then Some d else None))"

definition lower_ucs4 :: "py_env \<Rightarrow> ustring \<Rightarrow> nat \<Rightarrow> nat \<Rightarrow> ustring" where
  "lower_ucs4 env s i c =
     (if c = 0x3A3 then [if final_sigma env s i then 0x3C2 else 0x3C3]
      else if c < 128 then [if 65 \<le> c \<and> c \<le> 90 then c + 32 else c]
      else lower_full env c)"

definition str_lower :: "py_env \<Rightarrow> ustring \<Rightarrow> ustring" where
  "str_lower env s = concat (map (\<lambda>i. lower_ucs4 env s i (s ! i)) [0..<length s])"

text \<open>
  \<open>re.search\<close> with a pattern that is a single character class succeeds exactly when
  some code point of the string is in the class. The patterns are compiled without flags,
  so \<open>[a-z]\<close> and \<open>[A-Z]\<close> are the ASCII ranges, while \<open>\d\<close> on a \<open>str\<close> is any
  decimal digit.
\<close>

definition re_search :: "(nat \<Rightarrow> bool) \<Rightarrow> ustring \<Rightarrow> bool" where
  "re_search cls s = list_ex cls s"

definition cls_digit :: "py_env \<Rightarrow> nat \<Rightarrow> bool" where
  "cls_digit env c = (to_decimal env c \<noteq> None)"

definition cls_lower :: "nat \<Rightarrow> bool" where
  "cls_lower c = (97 \<le> c \<and> c \<le> 122)"

definition cls_upper :: "nat \<Rightarrow> bool" where
  "cls_upper c = (65 \<le> c \<and> c \<le> 90)"

definition cls_alpha :: "nat \<Rightarrow> bool" where
  "cls_alpha c = ((97 \<le> c \<and> c \<le> 122) \<or> (65 \<le> c \<and> c \<le> 90))"

definition special_chars :: ustring where
  "special_chars = ustr ''!@#$%^&*(),.?\":{}|<>''"

definition cls_special :: "nat \<Rightarrow> bool" where
  "cls_special c = (c \<in> set special_chars)"

section \<open>PasswordChecker: strength\<close>

definition common_passwords :: "ustring list" where
  "common_passwords = map ustr
     [''123456'', ''password'', ''12345678'', ''qwerty'', ''123456789'',
      ''12345'', ''1234'', ''111111'', ''1234567'', ''dragon'',
      ''123123'', ''baseball'', ''abc123'', ''football'', ''monkey'',
      ''letmein'', ''shadow'', ''master'', ''666666'', ''qwertyuiop'',
      ''123321'', ''mustang'', ''1234567890'', ''michael'', ''superman'']"

text \<open>
  The feedback messages are Russian sentences that start with a check mark or a cross.
  Each message is a constructor here, in the order of the source:
  length of 12 or more, length of 8 or more, too short; digits present, digits missing;
  mixed case, letters of one case only; special characters present, missing;
  the password is in the list of the weakest passwords.
\<close>

datatype finding =
    Length_excellent | Length_good | Length_short
  | Digits_present | Digits_missing
  | Case_mixed | Case_single
  | Special_present | Special_missing
  | Common_password

fun passes :: "finding \<Rightarrow> bool" where
  "passes Length_excellent = True"
| "passes Length_good = True"
| "passes Length_short = False"
| "passes Digits_present = True"
| "passes Digits_missing = False"
| "passes Case_mixed = True"
| "passes Case_single = False"
| "passes Special_present = True"
| "passes Special_missing = False"
| "passes Common_password = False"

text \<open>The four labels, Russian adjectives in the source, and their terminal colours.\<close>

datatype strength = Excellent | Good | Medium | Weak

text \<open>
  The function updates two local variables, \<open>score\<close> and \<open>feedback\<close>, in five
  consecutive blocks. Each block is a function on the pair of them.
\<close>

type_synonym tally = "int \<times> finding list"

definition criterion_length :: "ustring \<Rightarrow> tally \<Rightarrow> tally" where
  "criterion_length password = (\<lambda>(score, feedback).
     if length password \<ge> 12 then (score + 3, feedback @ [Length_excellent])
     else if length password \<ge> 8 then (score + 2, feedback @ [Length_good])
     else (score, feedback @ [Length_short]))"

definition criterion_digits :: "py_env \<Rightarrow> ustring \<Rightarrow> tally \<Rightarrow> tally" where
  "criterion_digits env password = (\<lambda>(score, feedback).
     if re_search (cls_digit env) password then (score + 1, feedback @ [Digits_present])
     else (score, feedback @ [Digits_missing]))"

definition criterion_case :: "ustring \<Rightarrow> tally \<Rightarrow> tally" where
  "criterion_case password = (\<lambda>(score, feedback).
     if re_search cls_lower password \<and> re_search cls_upper password
     then (score + 2, feedback @ [Case_mixed])
     else if re_search cls_alpha password then (score + 1, feedback @ [Case_single])
     else (score, feedback))"

definition criterion_special :: "ustring \<Rightarrow> tally \<Rightarrow> tally" where
  "criterion_special password = (\<lambda>(score, feedback).
     if re_search cls_special password then (score + 2, feedback @ [Special_present])
     else (score, feedback @ [Special_missing]))"

definition criterion_common :: "py_env \<Rightarrow> ustring \<Rightarrow> tally \<Rightarrow> tally" where
  "criterion_common env password = (\<lambda>(score, feedback).
     if str_lower env password \<in> set common_passwords
     then (0, feedback @ [Common_password])
     else (score, feedback))"

definition strength_of :: "int \<Rightarrow> strength \<times> string" where
  "strength_of score =
     (if score \<ge> 8 then (Excellent, CHR 0x1B # ''[92m'')
      else if score \<ge> 5 then (Good, CHR 0x1B # ''[93m'')
      else if score \<ge> 3 then (Medium, CHR 0x1B # ''[33m'')
      else (Weak, CHR 0x1B # ''[91m''))"

definition tally_of :: "py_env \<Rightarrow> ustring \<Rightarrow> tally" where
  "tally_of env password =
     criterion_common env password
       (criterion_special password
         (criterion_case password
           (criterion_digits env password
             (criterion_length password (0, [])))))"

text \<open>The returned dictionary; the key \<open>length\<close> is the field \<open>pw_length\<close>.\<close>

record analysis =
  score :: int
  max_score :: int
  strength :: strength
  color :: string
  feedback :: "finding list"
  pw_length :: nat

definition calculate_password_strength :: "py_env \<Rightarrow> ustring \<Rightarrow> analysis" where
  "calculate_password_strength env password =
     (let (sc, fb) = tally_of env password;
          (st, col) = strength_of sc
      in \<lparr> score = sc, max_score = 10, strength = st, color = col,
           feedback = fb, pw_length = length password \<rparr>)"

text \<open>
  An interpreter for the concrete runs below: the Arabic-Indic digits are decimal digits,
  the no-break space is white space, the Cyrillic capitals and the Kelvin sign have
  lowercase mappings, and \<open>int\<close> converts at most 4300 digits.
\<close>

definition sample_env :: py_env where
  "sample_env =
     \<lparr> decimal = (\<lambda>c. if 0x660 \<le> c \<and> c \<le> 0x669 then Some (c - 0x660) else None),
       is_space = (\<lambda>c. c = 0xA0),
       lower_full = (\<lambda>c. if 0x410 \<le> c \<and> c \<le> 0x42F then [c + 0x20]
                          else if c = 0x212A then [0x6B] else [c]),
       final_sigma = (\<lambda>s i. False),
       max_str_digits = 4300 \<rparr>"

section \<open>SHA-1 over the UTF-8 encoding\<close>

type_synonym byte = "8 word"

datatype py_error = ValueError | UnicodeEncodeError

text \<open>
  \<open>str.encode('utf-8')\<close> refuses the surrogate code points; a \<open>str\<close> holds no code
  point above 0x10FFFF.
\<close>

definition utf8_char :: "nat \<Rightarrow> byte list option" where
  "utf8_char c =
     (if c < 0x80 then Some [of_nat c]
      else if c < 0x800 then Some [of_nat (0xC0 + c div 64), of_nat (0x80 + c mod 64)]
      else if 0xD800 \<le> c \<and> c \<le> 0xDFFF then None
      else if c < 0x10000 then
        Some [of_nat (0xE0 + c div 4096), of_nat (0x80 + c div 64 mod 64),
              of_nat (0x80 + c mod 64)]
      else if c < 0x110000 then
        Some [of_nat (0xF0 + c div 262144), of_nat (0x80 + c div 4096 mod 64),
              of_nat (0x80 + c div 64 mod 64), of_nat (0x80 + c mod 64)]
      else None)"

definition utf8_encode :: "ustring \<Rightarrow> byte list option" where
  "utf8_encode s = map_option concat (those (map utf8_char s))"

definition be64 :: "64 word \<Rightarrow> byte list" where
  "be64 n = map (\<lambda>i. ucast (drop_bit (8 * (7 - i)) n)) [0..<8]"

definition sha1_pad :: "byte list \<Rightarrow> byte list" where
  "sha1_pad msg =
     msg @ [0x80] @ replicate ((119 - length msg mod 64) mod 64) 0
         @ be64 (8 * of_nat (length msg))"

fun be32 :: "byte list \<Rightarrow> 32 word" where
  "be32 [] = 0"
| "be32 (b # bs) = push_bit (8 * length bs) (ucast b) OR be32 bs"

fun words_of :: "nat \<Rightarrow> byte list \<Rightarrow> 32 word list" where
  "words_of 0 bs = []"
| "words_of (Suc n) bs = be32 (take 4 bs) # words_of n (drop 4 bs)"

fun schedule :: "nat \<Rightarrow> 32 word list \<Rightarrow> 32 word list" where
  "schedule 0 w = w"
| "schedule (Suc n) w =
     (let t = length w
      in schedule n
           (w @ [word_rotl 1 (w ! (t - 3) XOR w ! (t - 8) XOR w ! (t - 14) XOR w ! (t - 16))]))"

type_synonym sha1_state = "32 word \<times> 32 word \<times> 32 word \<times> 32 word \<times> 32 word"

definition sha1_round :: "32 word list \<Rightarrow> nat \<Rightarrow> sha1_state \<Rightarrow> sha1_state" where
  "sha1_round w t = (\<lambda>(a, b, c, d, e).
     let (f, k) =
           (if t < 20 then ((b AND c) OR (NOT b AND d), 0x5A827999)
            else if t < 40 then (b XOR c XOR d, 0x6ED9EBA1)
            else if t < 60 then ((b AND c) OR (b AND d) OR (c AND d), 0x8F1BBCDC)
            else (b XOR c XOR d, 0xCA62C1D6))
     in (word_rotl 5 a + f + e + k + w ! t, a, word_rotl 30 b, c, d))"

definition sha1_block :: "sha1_state \<Rightarrow> byte list \<Rightarrow> sha1_state" where
  "sha1_block h block =
     (let w = schedule 64 (words_of 16 block);
          (a, b, c, d, e) = fold (sha1_round w) [0..<80] h;
          (h0, h1, h2, h3, h4) = h
      in (h0 + a, h1 + b, h2 + c, h3 + d, h4 + e))"

fun sha1_blocks :: "nat \<Rightarrow> sha1_state \<Rightarrow> byte list \<Rightarrow> sha1_state" where
  "sha1_blocks 0 h bs = h"
| "sha1_blocks (Suc n) h bs = sha1_blocks n (sha1_block h (take 64 bs)) (drop 64 bs)"

definition bytes_of32 :: "32 word \<Rightarrow> byte list" where
  "bytes_of32 x = [ucast (drop_bit 24 x), ucast (drop_bit 16 x), ucast (drop_bit 8 x), ucast x]"

definition sha1 :: "byte list \<Rightarrow> byte list" where
  "sha1 msg =
     (let padded = sha1_pad msg;
          (h0, h1, h2, h3, h4) =
            sha1_blocks (length padded div 64)
              (0x67452301, 0xEFCDAB89, 0x98BADCFE, 0x10325476, 0xC3D2E1F0) padded
      in bytes_of32 h0 @ bytes_of32 h1 @ bytes_of32 h2 @ bytes_of32 h3 @ bytes_of32 h4)"

definition hex_digit :: "nat \<Rightarrow> nat" where
  "hex_digit n = (if n < 10 then 48 + n else 87 + n)"

definition hexdigest :: "byte list \<Rightarrow> ustring" where
  "hexdigest bs = concat (map (\<lambda>b. [hex_digit (unat b div 16), hex_digit (unat b mod 16)]) bs)"

text \<open>\<open>str.upper\<close> is only applied to a digest in hexadecimal, which is ASCII.\<close>

definition str_upper :: "ustring \<Rightarrow> ustring" where
  "str_upper s = map (\<lambda>c. if 97 \<le> c \<and> c \<le> 122 then c - 32 else c) s"

section \<open>Reading the response\<close>

text \<open>
  \<open>str.splitlines\<close> cuts at each line boundary (a carriage return followed by a line
  feed is one boundary), drops the boundaries and yields no empty last line.
\<close>

definition is_linebreak :: "nat \<Rightarrow> bool" where
  "is_linebreak c = (c \<in> {0x0A, 0x0B, 0x0C, 0x0D, 0x1C, 0x1D, 0x1E, 0x85, 0x2028, 0x2029})"

fun splitlines_from :: "ustring \<Rightarrow> ustring \<Rightarrow> ustring list" where
  "splitlines_from cur [] = (if cur = [] then [] else [cur])"
| "splitlines_from cur [c] =
     (if is_linebreak c then [cur] else [cur @ [c]])"
| "splitlines_from cur (c # d # cs) =
     (if c = 0x0D \<and> d = 0x0A then cur # splitlines_from [] cs
      else if is_linebreak c then cur # splitlines_from [] (d # cs)
      else splitlines_from (cur @ [c]) (d # cs))"

definition splitlines :: "ustring \<Rightarrow> ustring list" where
  "splitlines s = splitlines_from [] s"

text \<open>\<open>str.split(sep)\<close> with a separator of one character.\<close>

fun split_from :: "ustring \<Rightarrow> nat \<Rightarrow> ustring \<Rightarrow> ustring list" where
  "split_from cur sep [] = [cur]"
| "split_from cur sep (c # cs) =
     (if c = sep then cur # split_from [] sep cs else split_from (cur @ [c]) sep cs)"

definition split :: "nat \<Rightarrow> ustring \<Rightarrow> ustring list" where
  "split sep s = split_from [] sep s"

text \<open>
  \<open>int(count)\<close> on a \<open>str\<close>, base ten. The interpreter first maps white space to a
  blank and decimal digits to ASCII digits, and cuts the text at the first other code
  point from 127 on, which it replaces by a question mark; a text that is all ASCII is
  taken as it is. It then skips leading white space, reads a sign, reads digits that
  single underscores may separate, and skips trailing white space. Anything else, an empty
  digit part, or more digits than the limit allows, raises \<open>ValueError\<close>.
\<close>

fun transform_decimal_and_space :: "py_env \<Rightarrow> ustring \<Rightarrow> ustring" where
  "transform_decimal_and_space env [] = []"
| "transform_decimal_and_space env (c # cs) =
     (if c < 127 then c # transform_decimal_and_space env cs
      else if 128 \<le> c \<and> is_space env c then 32 # transform_decimal_and_space env cs
      else (case to_decimal env c of
              Some d \<Rightarrow> (48 + d) # transform_decimal_and_space env cs
            | None \<Rightarrow> [63]))"

definition to_ascii :: "py_env \<Rightarrow> ustring \<Rightarrow> ustring" where
  "to_ascii env s = (if list_all (\<lambda>c. c < 128) s then s else transform_decimal_and_space env s)"

definition ascii_space :: "nat \<Rightarrow> bool" where
  "ascii_space c = (c = 32 \<or> (9 \<le> c \<and> c \<le> 13))"

definition ascii_digit :: "nat \<Rightarrow> bool" where
  "ascii_digit c = (48 \<le> c \<and> c \<le> 57)"

fun double_underscore :: "ustring \<Rightarrow> bool" where
  "double_underscore (c # d # cs) = ((c = 95 \<and> d = 95) \<or> double_underscore (d # cs))"
| "double_underscore cs = False"

definition digits_value :: "ustring \<Rightarrow> nat" where
  "digits_value ds = foldl (\<lambda>a c. 10 * a + (c - 48)) 0 ds"

definition py_int :: "py_env \<Rightarrow> ustring \<Rightarrow> py_error + int" where
  "py_int env s =
     (let t = dropWhile ascii_space (to_ascii env s);
          (negative, u) =
            (case t of
               [] \<Rightarrow> (False, t)
             | c # r \<Rightarrow> if c = 45 then (True, r) else if c = 43 then (False, r) else (False, t));
          body = takeWhile (\<lambda>c. ascii_digit c \<or> c = 95) u;
          rest = dropWhile (\<lambda>c. ascii_digit c \<or> c = 95) u;
          digits = filter ascii_digit body
      in if body = [] \<or> hd body = 95 \<or> last body = 95 \<or> double_underscore body
         then Inl ValueError
         else if 640 < length digits \<and> 0 < max_str_digits env
                 \<and> max_str_digits env < length digits
         then Inl ValueError
         else if dropWhile ascii_space rest \<noteq> [] then Inl ValueError
         else Inr (if negative then - int (digits_value digits) else int (digits_value digits)))"

section \<open>PasswordChecker: breach lookup\<close>

definition api_url :: ustring where
  "api_url = ustr ''https://api.pwnedpasswords.com/range/''"

text \<open>
  \<open>requests.get\<close> either raises an exception of the class \<open>RequestException\<close>
  (connection error, timeout and the like) or returns a response, of which the source
  reads the status code and the text. The network is a function from the URL to that
  outcome.
\<close>

datatype http_result = RequestException | Response int ustring

text \<open>
  The loop over the lines. The generator splits a line only when the loop reaches it;
  unpacking into \<open>h, count\<close> raises \<open>ValueError\<close> unless the line has exactly two
  parts; the count is converted only on the line whose first part is the suffix.
\<close>

fun scan_hashes :: "py_env \<Rightarrow> ustring \<Rightarrow> ustring list \<Rightarrow> py_error + bool \<times> int" where
  "scan_hashes env suffix [] = Inr (False, 0)"
| "scan_hashes env suffix (line # lines) =
     (case split 58 line of
        [h, count] \<Rightarrow>
          if h = suffix
          then (case py_int env count of
                  Inl e \<Rightarrow> Inl e
                | Inr n \<Rightarrow> Inr (True, n))
          else scan_hashes env suffix lines
      | _ \<Rightarrow> Inl ValueError)"

definition sha1_hash :: "byte list \<Rightarrow> ustring" where
  "sha1_hash bs = str_upper (hexdigest (sha1 bs))"

text \<open>
  The result of a call is the list of the URLs it requested and what it returned or
  raised. Only \<open>RequestException\<close> is caught.
\<close>

definition check_pwned_api ::
  "py_env \<Rightarrow> (ustring \<Rightarrow> http_result) \<Rightarrow> ustring \<Rightarrow> ustring list \<times> (py_error + bool \<times> int)" where
  "check_pwned_api env get password =
     (case utf8_encode password of
        None \<Rightarrow> ([], Inl UnicodeEncodeError)
      | Some bs \<Rightarrow>
          (let prefix = take 5 (sha1_hash bs);
               suffix = drop 5 (sha1_hash bs);
               url = api_url @ prefix
           in (case get url of
                 RequestException \<Rightarrow> ([url], Inr (False, -1))
               | Response status_code text \<Rightarrow>
                   ([url],
                    if status_code = 200 then scan_hashes env suffix (splitlines text)
                    else Inr (False, 0)))))"

section \<open>Range responses and servers\<close>

text \<open>
  The body that the range endpoint sends: records of 35 uppercase hexadecimal digits, a
  colon and a count in decimal digits, separated by a line feed or by a carriage return and
  a line feed. \<open>int\<close> converts such a count unless it has more digits than the limit
  of the interpreter allows.
\<close>

definition is_hex_upper :: "nat \<Rightarrow> bool" where
  "is_hex_upper c = ((48 \<le> c \<and> c \<le> 57) \<or> (65 \<le> c \<and> c \<le> 70))"

definition decimal_count :: "ustring \<Rightarrow> bool" where
  "decimal_count c = (c \<noteq> [] \<and> list_all ascii_digit c)"

definition within_int_limit :: "py_env \<Rightarrow> ustring \<Rightarrow> bool" where
  "within_int_limit env c =
     (length c \<le> 640 \<or> max_str_digits env = 0 \<or> length c \<le> max_str_digits env)"

definition wf_record :: "ustring \<times> ustring \<Rightarrow> bool" where
  "wf_record = (\<lambda>(h, c). length h = 35 \<and> list_all is_hex_upper h \<and> decimal_count c)"

definition render_record :: "ustring \<times> ustring \<Rightarrow> ustring" where
  "render_record = (\<lambda>(h, c). h @ 58 # c)"

fun join_lines :: "ustring \<Rightarrow> ustring list \<Rightarrow> ustring" where
  "join_lines sep [] = []"
| "join_lines sep [l] = l"
| "join_lines sep (l # m # ls) = l @ sep @ join_lines sep (m # ls)"

text \<open>
  The lines that the loop passes over: those with exactly one colon whose first part is not
  the suffix sought.
\<close>

definition passed_over :: "ustring \<Rightarrow> ustring \<Rightarrow> bool" where
  "passed_over suffix line = (case split 58 line of [h, count] \<Rightarrow> h \<noteq> suffix | _ \<Rightarrow> False)"

text \<open>Two servers for the concrete runs: one that cannot be reached, one that answers.\<close>

definition unreachable :: "ustring \<Rightarrow> http_result" where
  "unreachable url = RequestException"

definition answers :: "int \<Rightarrow> ustring \<Rightarrow> ustring \<Rightarrow> http_result" where
  "answers status_code text url = Response status_code text"

section \<open>Properties of the strength score\<close>

lemmas criterion_defs =
  criterion_length_def criterion_digits_def criterion_case_def criterion_special_def
  criterion_common_def

lemmas cls_defs =
  re_search_def cls_upper_def cls_lower_def cls_alpha_def cls_digit_def to_decimal_def
  cls_special_def special_chars_def

lemma ustr_simps: "ustr [] = []" "ustr (c # cs) = of_char c # ustr cs"
  by (simp_all add: ustr_def)

lemma re_search_iff: "re_search cls s \<longleftrightarrow> (\<exists>c\<in>set s. cls c)"
  by (simp add: re_search_def list_ex_iff)

lemma score_eq: "score (calculate_password_strength env pw) = fst (tally_of env pw)"
  by (simp add: calculate_password_strength_def split: prod.splits)

lemma feedback_eq: "feedback (calculate_password_strength env pw) = snd (tally_of env pw)"
  by (simp add: calculate_password_strength_def split: prod.splits)

lemma strength_eq:
  "strength (calculate_password_strength env pw) = fst (strength_of (fst (tally_of env pw)))"
  by (simp add: calculate_password_strength_def split: prod.splits)

lemma troubadour_facts:
  "12 \<le> length (ustr ''Tr0ub4dor&3XQ!'')"
  "re_search cls_upper (ustr ''Tr0ub4dor&3XQ!'')"
  "re_search cls_lower (ustr ''Tr0ub4dor&3XQ!'')"
  "re_search (cls_digit sample_env) (ustr ''Tr0ub4dor&3XQ!'')"
  "re_search cls_special (ustr ''Tr0ub4dor&3XQ!'')"
  "str_lower sample_env (ustr ''Tr0ub4dor&3XQ!'') \<notin> set common_passwords"
  by (simp_all add: ustr_simps cls_defs str_lower_def lower_ucs4_def
      common_passwords_def upt_rec)

text \<open>
  C1, as amended. A password of at least 12 code points with an ASCII uppercase letter
  (A to Z), an ASCII lowercase letter (a to z), a decimal digit and a special character,
  whose lowercased form is not in the list of common passwords, gets the four awards
  3 + 1 + 2 + 2: the score is 8, not 10, and the label is Excellent.
\<close>

theorem full_marks_score_8:
  assumes "12 \<le> length pw"
    and "re_search cls_upper pw" and "re_search cls_lower pw"
    and "re_search (cls_digit env) pw" and "re_search cls_special pw"
    and "str_lower env pw \<notin> set common_passwords"
  shows "score (calculate_password_strength env pw) = 8
       \<and> strength (calculate_password_strength env pw) = Excellent"
  using assms by (simp add: score_eq strength_eq tally_of_def criterion_defs strength_of_def)

theorem full_marks_score_8_witness:
  "12 \<le> length (ustr ''Tr0ub4dor&3XQ!'')
   \<and> re_search cls_upper (ustr ''Tr0ub4dor&3XQ!'')
   \<and> re_search cls_lower (ustr ''Tr0ub4dor&3XQ!'')
   \<and> re_search (cls_digit sample_env) (ustr ''Tr0ub4dor&3XQ!'')
   \<and> re_search cls_special (ustr ''Tr0ub4dor&3XQ!'')
   \<and> str_lower sample_env (ustr ''Tr0ub4dor&3XQ!'') \<notin> set common_passwords
   \<and> score (calculate_password_strength sample_env (ustr ''Tr0ub4dor&3XQ!'')) = 8
   \<and> strength (calculate_password_strength sample_env (ustr ''Tr0ub4dor&3XQ!'')) = Excellent"
  using full_marks_score_8 [OF troubadour_facts] troubadour_facts by simp

text \<open>
  C1, as stated, fails on its own example: the password \<open>Tr0ub4dor&3XQ!\<close> meets every
  condition and its score is not 10. It fails further when the letters are not ASCII: six
  Cyrillic capitals, six Cyrillic small letters, the digit 1 and an exclamation mark make
  14 code points with a digit and a special character, and the score is 6, the label Good.
\<close>

theorem full_marks_not_10:
  "12 \<le> length (ustr ''Tr0ub4dor&3XQ!'')
   \<and> re_search cls_upper (ustr ''Tr0ub4dor&3XQ!'')
   \<and> re_search cls_lower (ustr ''Tr0ub4dor&3XQ!'')
   \<and> re_search (cls_digit sample_env) (ustr ''Tr0ub4dor&3XQ!'')
   \<and> re_search cls_special (ustr ''Tr0ub4dor&3XQ!'')
   \<and> str_lower sample_env (ustr ''Tr0ub4dor&3XQ!'') \<notin> set common_passwords
   \<and> score (calculate_password_strength sample_env (ustr ''Tr0ub4dor&3XQ!'')) \<noteq> 10
   \<and> length [0x410, 0x411, 0x412, 0x413, 0x414, 0x415,
              0x430, 0x431, 0x432, 0x433, 0x434, 0x435, 0x31, 0x21 :: nat] = 14
   \<and> re_search (cls_digit sample_env)
        [0x410, 0x411, 0x412, 0x413, 0x414, 0x415,
         0x430, 0x431, 0x432, 0x433, 0x434, 0x435, 0x31, 0x21]
   \<and> re_search cls_special
        [0x410, 0x411, 0x412, 0x413, 0x414, 0x415,
         0x430, 0x431, 0x432, 0x433, 0x434, 0x435, 0x31, 0x21]
   \<and> str_lower sample_env
        [0x410, 0x411, 0x412, 0x413, 0x414, 0x415,
         0x430, 0x431, 0x432, 0x433, 0x434, 0x435, 0x31, 0x21] \<notin> set common_passwords
   \<and> score (calculate_password_strength sample_env
        [0x410, 0x411, 0x412, 0x413, 0x414, 0x415,
         0x430, 0x431, 0x432, 0x433, 0x434, 0x435, 0x31, 0x21]) = 6
   \<and> strength (calculate_password_strength sample_env
        [0x410, 0x411, 0x412, 0x413, 0x414, 0x415,
         0x430, 0x431, 0x432, 0x433, 0x434, 0x435, 0x31, 0x21]) = Good"
proof -
  let ?pw = "[0x410, 0x411, 0x412, 0x413, 0x414, 0x415,
              0x430, 0x431, 0x432, 0x433, 0x434, 0x435, 0x31, 0x21] :: ustring"
  have latin: "score (calculate_password_strength sample_env (ustr ''Tr0ub4dor&3XQ!'')) \<noteq> 10"
    using troubadour_facts by (simp add: score_eq tally_of_def criterion_defs)
  have facts: "re_search (cls_digit sample_env) ?pw" "re_search cls_special ?pw"
    "\<not> re_search cls_lower ?pw" "\<not> re_search cls_upper ?pw" "\<not> re_search cls_alpha ?pw"
    by (simp_all add: cls_defs ustr_simps)
  have low: "str_lower sample_env ?pw \<notin> set common_passwords"
    by (simp add: str_lower_def lower_ucs4_def sample_env_def common_passwords_def
        ustr_simps upt_rec)
  have six: "score (calculate_password_strength sample_env ?pw) = 6"
    "strength (calculate_password_strength sample_env ?pw) = Good"
    using facts low
    by (simp_all add: score_eq strength_eq tally_of_def criterion_defs strength_of_def)
  from troubadour_facts latin facts(1,2) low six show ?thesis
    by simp
qed

text \<open>
  C3. When the lowercased password is an entry of the list of common passwords, the score
  is 0 whatever the four criteria awarded, and the findings are those of the four criteria
  followed by the failing finding of the list.
\<close>

theorem common_password_score_0:
  assumes "str_lower env pw \<in> set common_passwords"
  shows "score (calculate_password_strength env pw) = 0
       \<and> feedback (calculate_password_strength env pw) =
           snd (criterion_special pw (criterion_case pw
                  (criterion_digits env pw (criterion_length pw (0, [])))))
           @ [Common_password]
       \<and> \<not> passes Common_password"
  using assms
  by (simp add: score_eq feedback_eq tally_of_def criterion_common_def split: prod.splits)

lemma PassWord_common: "str_lower sample_env (ustr ''PassWord'') \<in> set common_passwords"
  by (simp add: ustr_simps str_lower_def lower_ucs4_def common_passwords_def upt_rec)

theorem common_password_score_0_witness:
  "str_lower sample_env (ustr ''PassWord'') \<in> set common_passwords
   \<and> score (calculate_password_strength sample_env (ustr ''PassWord'')) = 0
   \<and> feedback (calculate_password_strength sample_env (ustr ''PassWord'')) =
       [Length_good, Digits_missing, Case_mixed, Special_missing, Common_password]"
  using common_password_score_0 [OF PassWord_common] PassWord_common
  by (simp add: ustr_simps criterion_length_def criterion_digits_def criterion_case_def
      criterion_special_def cls_defs)

text \<open>
  C8. The label is read off the final score: 8 or more is Excellent, otherwise 5 or more
  is Good, otherwise 3 or more is Medium, otherwise Weak.
\<close>

theorem label_thresholds:
  "strength (calculate_password_strength env pw) =
     (if score (calculate_password_strength env pw) \<ge> 8 then Excellent
      else if score (calculate_password_strength env pw) \<ge> 5 then Good
      else if score (calculate_password_strength env pw) \<ge> 3 then Medium
      else Weak)"
  by (simp add: score_eq strength_eq strength_of_def)

theorem label_thresholds_witness:
  "score (calculate_password_strength sample_env (ustr ''PassWord'')) = 0
   \<and> strength (calculate_password_strength sample_env (ustr ''PassWord'')) = Weak"
  using label_thresholds [of sample_env "ustr ''PassWord''"] PassWord_common
  by (simp add: score_eq tally_of_def criterion_common_def split: prod.splits)

text \<open>
  C9. The score is between 0 and 8, so it is never 9 or 10, while the result reports a
  maximum of 10.
\<close>

theorem score_at_most_8:
  "0 \<le> score (calculate_password_strength env pw)
   \<and> score (calculate_password_strength env pw) \<le> 8
   \<and> score (calculate_password_strength env pw) \<noteq> 9
   \<and> score (calculate_password_strength env pw) \<noteq> 10
   \<and> max_score (calculate_password_strength env pw) = 10"
  by (simp add: score_eq tally_of_def criterion_defs calculate_password_strength_def
      split: prod.splits)

theorem score_at_most_8_witness:
  "score (calculate_password_strength sample_env (ustr ''Tr0ub4dor&3XQ!'')) = 8
   \<and> max_score (calculate_password_strength sample_env (ustr ''Tr0ub4dor&3XQ!'')) = 10"
proof -
  have "8 \<le> score (calculate_password_strength sample_env (ustr ''Tr0ub4dor&3XQ!''))"
    using troubadour_facts by (simp add: score_eq tally_of_def criterion_defs)
  then show ?thesis
    using score_at_most_8 [of sample_env "ustr ''Tr0ub4dor&3XQ!''"] by simp
qed

text \<open>
  C10. Letters are sought in the ASCII ranges only: a password without ASCII letters, in
  particular one of code points from 128 on, passes the case criterion unchanged (no
  point, no finding), and its score is what length and digits award. Digits are sought
  among all decimal digits: a decimal digit from 128 on earns the point for digits.
\<close>

theorem ascii_letters_unicode_digits:
  "((\<forall>c\<in>set pw. 128 \<le> c) \<longrightarrow> (\<forall>c\<in>set pw. \<not> cls_alpha c))
   \<and> ((\<forall>c\<in>set pw. \<not> cls_alpha c) \<longrightarrow>
         criterion_case pw t = t
         \<and> Case_mixed \<notin> set (feedback (calculate_password_strength env pw))
         \<and> Case_single \<notin> set (feedback (calculate_password_strength env pw)))
   \<and> ((\<forall>c\<in>set pw. 128 \<le> c) \<and> str_lower env pw \<notin> set common_passwords \<longrightarrow>
         score (calculate_password_strength env pw) =
           (if 12 \<le> length pw then 3 else if 8 \<le> length pw then 2 else 0)
           + (if re_search (cls_digit env) pw then 1 else 0))
   \<and> ((\<exists>c\<in>set pw. 128 \<le> c \<and> decimal env c = Some d \<and> d < 10) \<longrightarrow>
         criterion_digits env pw (s, fb) = (s + 1, fb @ [Digits_present])
         \<and> Digits_present \<in> set (feedback (calculate_password_strength env pw)))"
proof (intro conjI impI)
  assume "\<forall>c\<in>set pw. 128 \<le> c"
  then show "\<forall>c\<in>set pw. \<not> cls_alpha c"
    by (auto simp: cls_alpha_def)
next
  assume a: "\<forall>c\<in>set pw. \<not> cls_alpha c"
  then have none: "\<not> re_search cls_lower pw" "\<not> re_search cls_upper pw"
    "\<not> re_search cls_alpha pw"
    by (auto simp: re_search_iff cls_alpha_def cls_lower_def cls_upper_def)
  show "criterion_case pw t = t"
    using none by (simp add: criterion_case_def split: prod.splits)
  show "Case_mixed \<notin> set (feedback (calculate_password_strength env pw))"
    using none by (simp add: feedback_eq tally_of_def criterion_defs)
  show "Case_single \<notin> set (feedback (calculate_password_strength env pw))"
    using none by (simp add: feedback_eq tally_of_def criterion_defs)
next
  assume a: "(\<forall>c\<in>set pw. 128 \<le> c) \<and> str_lower env pw \<notin> set common_passwords"
  then have "\<not> re_search cls_lower pw" "\<not> re_search cls_upper pw"
    "\<not> re_search cls_alpha pw" "\<not> re_search cls_special pw"
    by (auto simp: re_search_iff cls_alpha_def cls_lower_def cls_upper_def cls_special_def
        special_chars_def ustr_simps)
  with a show "score (calculate_password_strength env pw) =
      (if 12 \<le> length pw then 3 else if 8 \<le> length pw then 2 else 0)
      + (if re_search (cls_digit env) pw then 1 else 0)"
    by (simp add: score_eq tally_of_def criterion_defs)
next
  assume "\<exists>c\<in>set pw. 128 \<le> c \<and> decimal env c = Some d \<and> d < 10"
  then obtain c where c: "c \<in> set pw" "128 \<le> c" "decimal env c = Some d" "d < 10"
    by blast
  then have "cls_digit env c"
    by (simp add: cls_digit_def to_decimal_def)
  with c(1) have dig: "re_search (cls_digit env) pw"
    unfolding re_search_iff by blast
  show "criterion_digits env pw (s, fb) = (s + 1, fb @ [Digits_present])"
    using dig by (simp add: criterion_digits_def)
  show "Digits_present \<in> set (feedback (calculate_password_strength env pw))"
    using dig by (simp add: feedback_eq tally_of_def criterion_defs)
qed

text \<open>
  The run: the Russian word for password in Cyrillic small letters, followed by the
  Arabic-Indic digit one.
\<close>

theorem ascii_letters_unicode_digits_witness:
  "list_all (\<lambda>c. 128 \<le> c) [0x43F, 0x430, 0x440, 0x43E, 0x43B, 0x44C, 0x661 :: nat]
   \<and> str_lower sample_env [0x43F, 0x430, 0x440, 0x43E, 0x43B, 0x44C, 0x661]
       \<notin> set common_passwords
   \<and> (\<exists>c\<in>set [0x43F, 0x430, 0x440, 0x43E, 0x43B, 0x44C, 0x661].
         128 \<le> c \<and> decimal sample_env c = Some 1 \<and> (1::nat) < 10)
   \<and> criterion_case [0x43F, 0x430, 0x440, 0x43E, 0x43B, 0x44C, 0x661] (0, []) = (0, [])
   \<and> score (calculate_password_strength sample_env
              [0x43F, 0x430, 0x440, 0x43E, 0x43B, 0x44C, 0x661]) = 1
   \<and> Digits_present \<in> set (feedback (calculate_password_strength sample_env
              [0x43F, 0x430, 0x440, 0x43E, 0x43B, 0x44C, 0x661]))
   \<and> Case_single \<notin> set (feedback (calculate_password_strength sample_env
              [0x43F, 0x430, 0x440, 0x43E, 0x43B, 0x44C, 0x661]))"
proof -
  let ?pw = "[0x43F, 0x430, 0x440, 0x43E, 0x43B, 0x44C, 0x661] :: ustring"
  have h1: "\<forall>c\<in>set ?pw. 128 \<le> c"
    by simp
  have h2: "str_lower sample_env ?pw \<notin> set common_passwords"
    by (simp add: str_lower_def lower_ucs4_def sample_env_def common_passwords_def
        ustr_simps upt_rec)
  have h3: "\<exists>c\<in>set ?pw. 128 \<le> c \<and> decimal sample_env c = Some 1 \<and> (1::nat) < 10"
    by (simp add: sample_env_def)
  have dig: "re_search (cls_digit sample_env) ?pw"
    by (simp add: cls_defs sample_env_def)
  note T = ascii_letters_unicode_digits [of ?pw "(0, [])" sample_env 1 0 "[]"]
  from T h1 have na: "\<forall>c\<in>set ?pw. \<not> cls_alpha c"
    by blast
  from T na have c1: "criterion_case ?pw (0, []) = (0, [])"
    and c2: "Case_single \<notin> set (feedback (calculate_password_strength sample_env ?pw))"
    by blast+
  from T h1 h2 have "score (calculate_password_strength sample_env ?pw) =
      (if 12 \<le> length ?pw then 3 else if 8 \<le> length ?pw then 2 else 0)
      + (if re_search (cls_digit sample_env) ?pw then 1 else 0)"
    by blast
  with dig have c3: "score (calculate_password_strength sample_env ?pw) = 1"
    by simp
  from T h3 have c4:
    "Digits_present \<in> set (feedback (calculate_password_strength sample_env ?pw))"
    by blast
  from h1 have h1': "list_all (\<lambda>c. 128 \<le> c) ?pw"
    unfolding list_all_iff .
  from h1' h2 h3 c1 c2 c3 c4 show ?thesis
    by blast
qed

section \<open>Properties of the digest and of the parsers\<close>

lemma length_sha1: "length (sha1 msg) = 20"
  by (simp add: sha1_def bytes_of32_def Let_def split: prod.splits)

lemma length_hexdigest: "length (hexdigest bs) = 2 * length bs"
  by (induction bs) (simp_all add: hexdigest_def)

lemma hex_digit_upper: "n < 16 \<Longrightarrow> is_hex_upper (if 97 \<le> hex_digit n \<and> hex_digit n \<le> 122 then hex_digit n - 32 else hex_digit n)"
  by (auto simp: hex_digit_def is_hex_upper_def)

lemma unat_byte_div: "unat (b :: byte) div 16 < 16"
proof -
  have "unat b < 2 ^ LENGTH(8)"
    by (rule unsigned_less)
  then show ?thesis by simp
qed

lemma hexdigest_hex: "list_all is_hex_upper (str_upper (hexdigest bs))"
  by (induction bs) (simp_all add: hexdigest_def str_upper_def hex_digit_upper unat_byte_div)

lemma sha1_hash_length: "length (sha1_hash bs) = 40"
  by (simp add: sha1_hash_def str_upper_def length_hexdigest length_sha1)

lemma sha1_hash_hex: "list_all is_hex_upper (sha1_hash bs)"
  by (simp add: sha1_hash_def hexdigest_hex)

lemma check_pwned_api_Some:
  "utf8_encode pw = Some bs \<Longrightarrow>
   check_pwned_api env get pw =
     ([api_url @ take 5 (sha1_hash bs)],
      case get (api_url @ take 5 (sha1_hash bs)) of
        RequestException \<Rightarrow> Inr (False, -1)
      | Response st text \<Rightarrow>
          if st = 200 then scan_hashes env (drop 5 (sha1_hash bs)) (splitlines text)
          else Inr (False, 0))"
  by (simp add: check_pwned_api_def Let_def split: http_result.splits)

lemma check_pwned_api_None:
  "utf8_encode pw = None \<Longrightarrow> check_pwned_api env get pw = ([], Inl UnicodeEncodeError)"
  by (simp add: check_pwned_api_def)

text \<open>Lines: a text of lines without line boundaries, joined by a separator, splits back.\<close>

lemma linebreak_simps:
  "is_linebreak 10" "is_linebreak 13"
  by (simp_all add: is_linebreak_def)

lemma splitlines_from_plain:
  "\<not> is_linebreak c \<Longrightarrow>
   splitlines_from cur (c # cs) = (if cs = [] then [cur @ [c]] else splitlines_from (cur @ [c]) cs)"
  by (cases cs) (auto simp: linebreak_simps)

lemma splitlines_from_lf: "splitlines_from cur (10 # cs) = cur # splitlines_from [] cs"
  by (cases cs) (simp_all add: linebreak_simps)

lemma splitlines_from_crlf: "splitlines_from cur (13 # 10 # cs) = cur # splitlines_from [] cs"
  by simp

lemma splitlines_from_line:
  assumes "\<forall>c\<in>set l. \<not> is_linebreak c" and "sep = [10] \<or> sep = [13, 10]"
  shows "splitlines_from cur (l @ sep @ rest) = (cur @ l) # splitlines_from [] rest"
  using assms
proof (induction l arbitrary: cur)
  case Nil
  then show ?case by (auto simp: splitlines_from_lf)
next
  case (Cons c l)
  then have "splitlines_from cur ((c # l) @ sep @ rest) = splitlines_from (cur @ [c]) (l @ sep @ rest)"
    by (auto simp: splitlines_from_plain)
  with Cons show ?case by simp
qed

lemma splitlines_from_last:
  assumes "\<forall>c\<in>set l. \<not> is_linebreak c" and "cur @ l \<noteq> []"
  shows "splitlines_from cur l = [cur @ l]"
  using assms
proof (induction l arbitrary: cur)
  case Nil
  then show ?case by simp
next
  case (Cons c l)
  then show ?case by (cases l) (simp_all add: splitlines_from_plain del: splitlines_from.simps)
qed

lemma splitlines_join:
  assumes "\<forall>l\<in>set ls. l \<noteq> [] \<and> (\<forall>c\<in>set l. \<not> is_linebreak c)"
    and "sep = [10] \<or> sep = [13, 10]"
  shows "splitlines (join_lines sep ls) = ls"
    and "ls \<noteq> [] \<Longrightarrow> splitlines (join_lines sep ls @ sep) = ls"
proof -
  have a: "splitlines_from [] (join_lines sep ls) = ls" using assms
  proof (induction sep ls rule: join_lines.induct)
    case (3 sep l m ls)
    then show ?case by (simp add: splitlines_from_line)
  qed (simp_all add: splitlines_from_last)
  have b: "splitlines_from [] (join_lines sep ls @ sep) = ls" if "ls \<noteq> []"
    using assms that
  proof (induction sep ls rule: join_lines.induct)
    case (1 sep)
    then show ?case by simp
  next
    case (2 sep l)
    then show ?case using splitlines_from_line [of l sep "[]" "[]"] by simp
  next
    case (3 sep l m ls)
    then show ?case by (simp add: splitlines_from_line)
  qed
  show "splitlines (join_lines sep ls) = ls"
    using a by (simp add: splitlines_def)
  show "splitlines (join_lines sep ls @ sep) = ls" if "ls \<noteq> []"
    using b that by (simp add: splitlines_def)
qed

text \<open>Fields: a record splits at its colon into the suffix and the count.\<close>

lemma split_from_field:
  "sep \<notin> set h \<Longrightarrow> split_from cur sep (h @ sep # r) = (cur @ h) # split_from [] sep r"
  by (induction h arbitrary: cur) auto

lemma split_from_last: "sep \<notin> set c \<Longrightarrow> split_from cur sep c = [cur @ c]"
  by (induction c arbitrary: cur) auto

lemma split_record:
  "58 \<notin> set h \<Longrightarrow> 58 \<notin> set c \<Longrightarrow> split 58 (render_record (h, c)) = [h, c]"
  by (simp add: split_def render_record_def split_from_field split_from_last)

lemma hex_no_colon: "list_all is_hex_upper h \<Longrightarrow> 58 \<notin> set h"
  by (auto simp: list_all_iff is_hex_upper_def)

lemma digits_no_colon: "list_all ascii_digit c \<Longrightarrow> 58 \<notin> set c"
  by (auto simp: list_all_iff ascii_digit_def)

text \<open>
  Counts: \<open>int\<close> reads a string of ASCII digits as the number it denotes, and reads
  nothing negative from a string without a minus sign.
\<close>

lemma double_underscore_none: "95 \<notin> set cs \<Longrightarrow> \<not> double_underscore cs"
  by (induction cs rule: double_underscore.induct) auto

lemma digits_no_underscore: "list_all ascii_digit c \<Longrightarrow> 95 \<notin> set c"
  by (auto simp: list_all_iff ascii_digit_def)

lemma to_ascii_digits: "list_all ascii_digit c \<Longrightarrow> to_ascii env c = c"
  by (auto simp: to_ascii_def list_all_iff ascii_digit_def)

lemma py_int_decimal:
  assumes "decimal_count c"
  shows "py_int env c =
           (if within_int_limit env c then Inr (int (digits_value c)) else Inl ValueError)"
proof -
  from assms obtain d ds where c: "c = d # ds" and all: "list_all ascii_digit c"
    by (cases c) (auto simp: decimal_count_def)
  have d: "ascii_digit d" using all c by simp
  then have nsp: "\<not> ascii_space d" and nsign: "d \<noteq> 45" "d \<noteq> 43"
    by (auto simp: ascii_digit_def ascii_space_def)
  have t: "dropWhile ascii_space (to_ascii env c) = c"
    unfolding to_ascii_digits [OF all] using nsp c by simp
  have tw: "takeWhile (\<lambda>c. ascii_digit c \<or> c = 95) c = c"
    using all by (auto simp: list_all_iff intro: takeWhile_eq_all_conv [THEN iffD2])
  have dw: "dropWhile (\<lambda>c. ascii_digit c \<or> c = 95) c = []"
    using all by (auto simp: list_all_iff)
  have fl: "filter ascii_digit c = c"
    using all by (auto simp: list_all_iff)
  have ne: "c \<noteq> []" using c by simp
  have hd_last: "hd c \<noteq> 95" "last c \<noteq> 95"
    using digits_no_underscore [OF all] hd_in_set [OF ne] last_in_set [OF ne]
    by auto
  have du: "\<not> double_underscore c"
    using digits_no_underscore [OF all] by (rule double_underscore_none)
  have sign: "(case c of
                 [] \<Rightarrow> (False, c)
               | c0 # r \<Rightarrow> if c0 = 45 then (True, r) else if c0 = 43 then (False, r)
                           else (False, c)) = (False, c)"
    using nsign by (simp add: c)
  have lim: "(640 < length c \<and> 0 < max_str_digits env \<and> max_str_digits env < length c)
      \<longleftrightarrow> \<not> within_int_limit env c"
    by (auto simp: within_int_limit_def)
  show ?thesis
    unfolding py_int_def t sign Let_def prod.case tw dw fl lim
    using ne hd_last du by simp
qed

lemma transform_subset:
  "set (transform_decimal_and_space env s) \<subseteq> set s \<union> {32, 63} \<union> {48..57}"
  by (induction s) (auto simp: to_decimal_def split: option.splits if_splits)

lemma to_ascii_no_minus: "45 \<notin> set s \<Longrightarrow> 45 \<notin> set (to_ascii env s)"
  using transform_subset [of env s] by (auto simp: to_ascii_def)

lemma sign_no_minus:
  "45 \<notin> set t \<Longrightarrow>
   (case t of
      [] \<Rightarrow> (False, t)
    | c # r \<Rightarrow> if c = 45 then (True, r) else if c = 43 then (False, r) else (False, t))
   = (False, case t of [] \<Rightarrow> [] | c # r \<Rightarrow> if c = 43 then r else t)"
  by (cases t) auto

lemma py_int_nonneg:
  assumes "45 \<notin> set s" and "py_int env s = Inr n"
  shows "0 \<le> n"
proof -
  define t where "t = dropWhile ascii_space (to_ascii env s)"
  have "45 \<notin> set t"
    using to_ascii_no_minus [OF assms(1), of env] set_dropWhileD [of 45 ascii_space]
    unfolding t_def by blast
  note sign = sign_no_minus [OF this]
  from assms(2) show ?thesis
    unfolding py_int_def t_def [symmetric] sign Let_def prod.case
    by (simp split: if_splits)
qed

text \<open>The loop: what it returns on well-formed records, and which line decides in general.\<close>

lemma scan_hashes_records:
  assumes "\<forall>r\<in>set records. wf_record r"
  shows "scan_hashes env suffix (map render_record records) =
           (case find (\<lambda>(h, c). h = suffix) records of
              None \<Rightarrow> Inr (False, 0)
            | Some (h, c) \<Rightarrow>
                if within_int_limit env c then Inr (True, int (digits_value c))
                else Inl ValueError)"
  using assms
proof (induction records)
  case Nil
  then show ?case by simp
next
  case (Cons r records)
  obtain h c where r: "r = (h, c)" by (cases r)
  with Cons.prems have wf: "list_all is_hex_upper h" "decimal_count c"
    by (simp_all add: wf_record_def)
  then have sp: "split 58 (render_record (h, c)) = [h, c]"
    by (simp add: split_record hex_no_colon digits_no_colon decimal_count_def)
  show ?case
    using Cons sp wf(2) by (simp add: r py_int_decimal)
qed

lemma record_line:
  assumes "wf_record r"
  shows "render_record r \<noteq> [] \<and> (\<forall>c\<in>set (render_record r). \<not> is_linebreak c)"
proof -
  obtain h c where r: "r = (h, c)" by (cases r)
  with assms have "list_all is_hex_upper h" "list_all ascii_digit c"
    by (simp_all add: wf_record_def decimal_count_def)
  then show ?thesis
    by (auto simp: r render_record_def list_all_iff is_hex_upper_def ascii_digit_def
        is_linebreak_def)
qed

lemma find_distinct:
  "(h, c) \<in> set records \<Longrightarrow> distinct (map fst records) \<Longrightarrow>
   find (\<lambda>(h', c'). h' = h) records = Some (h, c)"
  by (induction records) (auto simp: rev_image_eqI)

lemma find_none: "(\<forall>r\<in>set records. fst r \<noteq> s) \<Longrightarrow> find (\<lambda>(h, c). h = s) records = None"
  by (induction records) auto

lemma dropWhile_head: "dropWhile P xs = x # rest \<Longrightarrow> \<not> P x"
  using hd_dropWhile [of P xs] by auto

lemma py_int_over_limit:
  "py_int sample_env (replicate 4301 57) = Inl ValueError"
proof -
  have "decimal_count (replicate 4301 57)"
    by (simp add: decimal_count_def list_all_iff ascii_digit_def)
  moreover have "\<not> within_int_limit sample_env (replicate 4301 57)"
    by (simp add: within_int_limit_def sample_env_def)
  ultimately show ?thesis
    by (simp add: py_int_decimal)
qed

lemma passed_over_iff:
  "passed_over suffix line \<longleftrightarrow> (\<exists>h count. split 58 line = [h, count] \<and> h \<noteq> suffix)"
  by (simp add: passed_over_def split: list.splits)

lemma scan_hashes_Cons_pair:
  "split 58 line = [h, count] \<Longrightarrow>
   scan_hashes env suffix (line # lines) =
     (if h = suffix
      then (case py_int env count of Inl e \<Rightarrow> Inl e | Inr n \<Rightarrow> Inr (True, n))
      else scan_hashes env suffix lines)"
  by simp

lemma scan_hashes_Cons_other:
  "\<not> (\<exists>h count. split 58 line = [h, count]) \<Longrightarrow>
   scan_hashes env suffix (line # lines) = Inl ValueError
   \<and> (case split 58 line of [h, count] \<Rightarrow> f h count | _ \<Rightarrow> Inl ValueError) = Inl ValueError"
  by (simp split: list.splits)

lemma scan_hashes_decisive:
  "scan_hashes env suffix lines =
     (case dropWhile (passed_over suffix) lines of
        [] \<Rightarrow> Inr (False, 0)
      | line # _ \<Rightarrow>
          (case split 58 line of
             [h, count] \<Rightarrow> (case py_int env count of Inl e \<Rightarrow> Inl e | Inr n \<Rightarrow> Inr (True, n))
           | _ \<Rightarrow> Inl ValueError))"
proof (induction lines)
  case Nil
  show ?case by simp
next
  case (Cons line lines)
  show ?case
  proof (cases "\<exists>h count. split 58 line = [h, count]")
    case False
    then have "\<not> passed_over suffix line"
      by (simp add: passed_over_iff)
    moreover have "scan_hashes env suffix (line # lines) = Inl ValueError"
      using scan_hashes_Cons_other [OF False] by blast
    moreover have "(case split 58 line of
          [h, count] \<Rightarrow> (case py_int env count of Inl e \<Rightarrow> Inl e | Inr n \<Rightarrow> Inr (True, n))
        | _ \<Rightarrow> Inl ValueError) = Inl ValueError"
      using False by (simp split: list.splits)
    ultimately show ?thesis
      by (simp del: scan_hashes.simps)
  next
    case True
    then obtain h count where sp: "split 58 line = [h, count]" by blast
    then have po: "passed_over suffix line \<longleftrightarrow> h \<noteq> suffix"
      by (simp add: passed_over_iff)
    show ?thesis
      using Cons.IH po sp by (simp add: scan_hashes_Cons_pair [OF sp] del: scan_hashes.simps)
  qed
qed

lemma dropWhile_prefix: "list_all P pre \<Longrightarrow> \<not> P x \<Longrightarrow> dropWhile P (pre @ x # post) = x # post"
  by (induction pre) auto

section \<open>The digests of two passwords\<close>

text \<open>
  The digests of \<open>password\<close> and of \<open>secret878779\<close>, computed step by step: padding,
  the sixteen words of the block, the eighty words of the schedule, the eighty rounds.
  Both digests start with \<open>5BAA6\<close>.
\<close>

lemma rotl32: "word_rotl n (w :: 32 word) = push_bit (n mod 32) w OR drop_bit (32 - n mod 32) w"
proof (rule bit_word_eqI)
  fix k assume k: "k < LENGTH(32)"
  define m where "m = n mod 32"
  have m: "m < 32" by (simp add: m_def)
  show "bit (word_rotl n w) k = bit (push_bit (n mod 32) w OR drop_bit (32 - n mod 32) w) k"
  proof (cases "m \<le> k")
    case True
    then have e: "(k + (32 - m)) mod 32 = k - m"
      using k m by (simp add: mod_if)
    have "\<not> bit w j" if "32 \<le> j" for j
      using that bit_imp_le_length [of w j] by auto
    then show ?thesis
      using True k e
      by (simp add: bit_word_rotl_iff bit_or_iff bit_push_bit_iff bit_drop_bit_eq
          m_def [symmetric])
  next
    case False
    then have e: "(k + (32 - m)) mod 32 = k + (32 - m)"
      using k m by simp
    show ?thesis
      using False k e
      by (simp add: bit_word_rotl_iff bit_or_iff bit_push_bit_iff bit_drop_bit_eq
          m_def [symmetric])
        (simp add: add.commute)
  qed
qed

lemma replicate_unfold: "0 < n \<Longrightarrow> replicate n x = x # replicate (n - 1) x"
  by (cases n) simp_all

lemma words_of_unfold:
  "0 < n \<Longrightarrow> words_of n bs = be32 (take 4 bs) # words_of (n - 1) (drop 4 bs)"
  by (cases n) simp_all

lemma schedule_unfold:
  "0 < n \<Longrightarrow> schedule n w =
     schedule (n - 1)
       (w @ [word_rotl 1 (w ! (length w - 3) XOR w ! (length w - 8)
                          XOR w ! (length w - 14) XOR w ! (length w - 16))])"
  by (cases n) (simp_all add: Let_def)

lemma sha1_blocks_unfold:
  "0 < n \<Longrightarrow>
   sha1_blocks n h bs = sha1_blocks (n - 1) (sha1_block h (take 64 bs)) (drop 64 bs)"
  by (cases n) simp_all

lemma password_bytes:
  "utf8_encode (ustr ''password'') = Some
     [0x70, 0x61, 0x73, 0x73, 0x77, 0x6F, 0x72, 0x64]"
  by (simp add: utf8_encode_def utf8_char_def ustr_simps)

lemma password_pad:
  "sha1_pad
     [0x70, 0x61, 0x73, 0x73, 0x77, 0x6F, 0x72, 0x64] =
     [0x70, 0x61, 0x73, 0x73, 0x77, 0x6F, 0x72, 0x64, 0x80, 0x00, 0x00, 0x00, 0x00,
       0x00, 0x00, 0x00, 0x00, 0x00, 0x00, 0x00, 0x00, 0x00, 0x00, 0x00, 0x00, 0x00,
       0x00, 0x00, 0x00, 0x00, 0x00, 0x00, 0x00, 0x00, 0x00, 0x00, 0x00, 0x00, 0x00,
       0x00, 0x00, 0x00, 0x00, 0x00, 0x00, 0x00, 0x00, 0x00, 0x00, 0x00, 0x00, 0x00,
       0x00, 0x00, 0x00, 0x00, 0x00, 0x00, 0x00, 0x00, 0x00, 0x00, 0x00, 0x40]"
  by (simp add: sha1_pad_def be64_def upt_rec drop_bit_eq_div replicate_unfold)

lemma password_words:
  "words_of 16
     [0x70, 0x61, 0x73, 0x73, 0x77, 0x6F, 0x72, 0x64, 0x80, 0x00, 0x00, 0x00, 0x00,
       0x00, 0x00, 0x00, 0x00, 0x00, 0x00, 0x00, 0x00, 0x00, 0x00, 0x00, 0x00, 0x00,
       0x00, 0x00, 0x00, 0x00, 0x00, 0x00, 0x00, 0x00, 0x00, 0x00, 0x00, 0x00, 0x00,
       0x00, 0x00, 0x00, 0x00, 0x00, 0x00, 0x00, 0x00, 0x00, 0x00, 0x00, 0x00, 0x00,
       0x00, 0x00, 0x00, 0x00, 0x00, 0x00, 0x00, 0x00, 0x00, 0x00, 0x00, 0x40] =
     [0x70617373, 0x776F7264, 0x80000000, 0x00000000, 0x00000000, 0x00000000,
       0x00000000, 0x00000000, 0x00000000, 0x00000000, 0x00000000, 0x00000000,
       0x00000000, 0x00000000, 0x00000000, 0x00000040]"
  by (simp add: words_of_unfold)

lemma password_schedule:
  "schedule 64
     [0x70617373, 0x776F7264, 0x80000000, 0x00000000, 0x00000000, 0x00000000,
       0x00000000, 0x00000000, 0x00000000, 0x00000000, 0x00000000, 0x00000000,
       0x00000000, 0x00000000, 0x00000000, 0x00000040] =
     [0x70617373, 0x776F7264, 0x80000000, 0x00000000, 0x00000000, 0x00000000,
           0x00000000, 0x00000000, 0x00000000, 0x00000000, 0x00000000, 0x00000000,
           0x00000000, 0x00000000, 0x00000000, 0x00000040, 0xE0C2E6E7, 0xEEDEE4C8,
           0x00000081, 0xC185CDCF, 0xDDBDC991, 0x00000102, 0x830B9B9F, 0xBB7B93A3,
           0xC185CFCB, 0xDBAAFEAE, 0x76F72645, 0x00000408, 0x0C2E6E7E, 0xEDEE4E0E,
           0xC792F2E0, 0xB31632AA, 0x9952CF47, 0x66C64A92, 0x30B9BBFE, 0xB1AE0F04,
           0x68BCEDC4, 0xCC58CEA2, 0x69655360, 0x76F764C7, 0xC4F1D0D7, 0xA813C6A9,
           0x792F2E04, 0x31632BAB, 0x16276FE6, 0xD71F3805, 0x0D8C8AD8, 0x6A00E633,
           0x740B38D7, 0xE5EE13CE, 0x96553C1A, 0x713DA5B4, 0xE4218519, 0xF7CB5CF5,
           0xA24B59B7, 0xA18B8288, 0x7C3D35E2, 0xBDAB4EF7, 0xB1ADFEE0, 0xD6F907F1,
           0x84425DA0, 0xF6F2F847, 0x1A6BD892, 0x544E55AB, 0xD12392D0, 0x6626403E,
           0x2F2E2491, 0x0258D8C1, 0x481D8261, 0x1F380557, 0x8C8AD80D, 0x00E6376A,
           0x0716B90A, 0x03FDA26B, 0x344F6176, 0x4A8B3CFA, 0xAB934A71, 0x1397939B,
           0x1A935D6A, 0x323AD11D]"
  by (simp add: schedule_unfold rotl32)

lemma password_rounds:
  "fold (sha1_round
         [0x70617373, 0x776F7264, 0x80000000, 0x00000000, 0x00000000, 0x00000000,
           0x00000000, 0x00000000, 0x00000000, 0x00000000, 0x00000000, 0x00000000,
           0x00000000, 0x00000000, 0x00000000, 0x00000040, 0xE0C2E6E7, 0xEEDEE4C8,
           0x00000081, 0xC185CDCF, 0xDDBDC991, 0x00000102, 0x830B9B9F, 0xBB7B93A3,
           0xC185CFCB, 0xDBAAFEAE, 0x76F72645, 0x00000408, 0x0C2E6E7E, 0xEDEE4E0E,
           0xC792F2E0, 0xB31632AA, 0x9952CF47, 0x66C64A92, 0x30B9BBFE, 0xB1AE0F04,
           0x68BCEDC4, 0xCC58CEA2, 0x69655360, 0x76F764C7, 0xC4F1D0D7, 0xA813C6A9,
           0x792F2E04, 0x31632BAB, 0x16276FE6, 0xD71F3805, 0x0D8C8AD8, 0x6A00E633,
           0x740B38D7, 0xE5EE13CE, 0x96553C1A, 0x713DA5B4, 0xE4218519, 0xF7CB5CF5,
           0xA24B59B7, 0xA18B8288, 0x7C3D35E2, 0xBDAB4EF7, 0xB1ADFEE0, 0xD6F907F1,
           0x84425DA0, 0xF6F2F847, 0x1A6BD892, 0x544E55AB, 0xD12392D0, 0x6626403E,
           0x2F2E2491, 0x0258D8C1, 0x481D8261, 0x1F380557, 0x8C8AD80D, 0x00E6376A,
           0x0716B90A, 0x03FDA26B, 0x344F6176, 0x4A8B3CFA, 0xAB934A71, 0x1397939B,
           0x1A935D6A, 0x323AD11D])
     [0..<80] (0x67452301, 0xEFCDAB89, 0x98BADCFE, 0x10325476, 0xC3D2E1F0) =
     (0xF4653EE3, 0xD9EB93B6, 0x6DC7480D, 0x5CC5DEA5, 0xBB13ADE8)"
  by (simp add: sha1_round_def rotl32 upt_rec)

lemma password_sha1:
  "sha1
     [0x70, 0x61, 0x73, 0x73, 0x77, 0x6F, 0x72, 0x64] =
     [0x5B, 0xAA, 0x61, 0xE4, 0xC9, 0xB9, 0x3F, 0x3F, 0x06, 0x82, 0x25, 0x0B, 0x6C,
       0xF8, 0x33, 0x1B, 0x7E, 0xE6, 0x8F, 0xD8]"
  by (simp add: sha1_def password_pad sha1_blocks_unfold sha1_block_def password_words
      password_schedule password_rounds bytes_of32_def drop_bit_eq_div)

lemma password_hash:
  "sha1_hash
     [0x70, 0x61, 0x73, 0x73, 0x77, 0x6F, 0x72, 0x64] =
     ustr ''5BAA61E4C9B93F3F0682250B6CF8331B7EE68FD8''"
  by (simp add: sha1_hash_def password_sha1 hexdigest_def hex_digit_def str_upper_def ustr_simps)

lemma secret_bytes:
  "utf8_encode (ustr ''secret878779'') = Some
     [0x73, 0x65, 0x63, 0x72, 0x65, 0x74, 0x38, 0x37, 0x38, 0x37, 0x37, 0x39]"
  by (simp add: utf8_encode_def utf8_char_def ustr_simps)

lemma secret_pad:
  "sha1_pad
     [0x73, 0x65, 0x63, 0x72, 0x65, 0x74, 0x38, 0x37, 0x38, 0x37, 0x37, 0x39] =
     [0x73, 0x65, 0x63, 0x72, 0x65, 0x74, 0x38, 0x37, 0x38, 0x37, 0x37, 0x39, 0x80,
       0x00, 0x00, 0x00, 0x00, 0x00, 0x00, 0x00, 0x00, 0x00, 0x00, 0x00, 0x00, 0x00,
       0x00, 0x00, 0x00, 0x00, 0x00, 0x00, 0x00, 0x00, 0x00, 0x00, 0x00, 0x00, 0x00,
       0x00, 0x00, 0x00, 0x00, 0x00, 0x00, 0x00, 0x00, 0x00, 0x00, 0x00, 0x00, 0x00,
       0x00, 0x00, 0x00, 0x00, 0x00, 0x00, 0x00, 0x00, 0x00, 0x00, 0x00, 0x60]"
  by (simp add: sha1_pad_def be64_def upt_rec drop_bit_eq_div replicate_unfold)

lemma secret_words:
  "words_of 16
     [0x73, 0x65, 0x63, 0x72, 0x65, 0x74, 0x38, 0x37, 0x38, 0x37, 0x37, 0x39, 0x80,
       0x00, 0x00, 0x00, 0x00, 0x00, 0x00, 0x00, 0x00, 0x00, 0x00, 0x00, 0x00, 0x00,
       0x00, 0x00, 0x00, 0x00, 0x00, 0x00, 0x00, 0x00, 0x00, 0x00, 0x00, 0x00, 0x00,
       0x00, 0x00, 0x00, 0x00, 0x00, 0x00, 0x00, 0x00, 0x00, 0x00, 0x00, 0x00, 0x00,
       0x00, 0x00, 0x00, 0x00, 0x00, 0x00, 0x00, 0x00, 0x00, 0x00, 0x00, 0x60] =
     [0x73656372, 0x65743837, 0x38373739, 0x80000000, 0x00000000, 0x00000000,
       0x00000000, 0x00000000, 0x00000000, 0x00000000, 0x00000000, 0x00000000,
       0x00000000, 0x00000000, 0x00000000, 0x00000060]"
  by (simp add: words_of_unfold)

lemma secret_schedule:
  "schedule 64
     [0x73656372, 0x65743837, 0x38373739, 0x80000000, 0x00000000, 0x00000000,
       0x00000000, 0x00000000, 0x00000000, 0x00000000, 0x00000000, 0x00000000,
       0x00000000, 0x00000000, 0x00000000, 0x00000060] =
     [0x73656372, 0x65743837, 0x38373739, 0x80000000, 0x00000000, 0x00000000,
           0x00000000, 0x00000000, 0x00000000, 0x00000000, 0x00000000, 0x00000000,
           0x00000000, 0x00000000, 0x00000000, 0x00000060, 0x96A4A896, 0xCAE8706F,
           0x706E6EB2, 0x2D49512C, 0x95D0E0DF, 0xE0DCDD64, 0x5A92A258, 0x2BA1C17F,
           0xECF0EBE4, 0x20F5A46F, 0xB79F5F9A, 0x83737591, 0x6A4A8961, 0xAE87053C,
           0x9E8AFEBE, 0x16067023, 0x497A51F9, 0xB3BCF724, 0x884F43A8, 0x0F395040,
           0x2D687984, 0xDB6AB51F, 0x4FA3CE84, 0x6074D96E, 0x92FEA131, 0xBF33D0BC,
           0x6BDC987A, 0x606703B9, 0xCD37BDCE, 0x106EB0F4, 0xF068C4F5, 0x11F3C74E,
           0x874A0728, 0xE7BD665B, 0xBE10CA31, 0x66FDC39C, 0x9082D92A, 0x2AC02D68,
           0x9790D1B8, 0xBC6C2F6C, 0xA9502616, 0x5EF2C9CD, 0x492F81D3, 0x7F48AD8F,
           0xE65ED3B9, 0xC4E5B602, 0x3FF57FD5, 0x58F8BB81, 0xA9DEBA1A, 0xC08E27BF,
           0x7E8A5292, 0x3557F2C3, 0x4385F928, 0x5987CD28, 0x68C4F570, 0xF3C74811,
           0x204DA1EE, 0x13E16D1B, 0x447891D2, 0x5D6E9141, 0x139E70BF, 0x03C4A2F3,
           0x470343FD, 0xF05F4920]"
  by (simp add: schedule_unfold rotl32)

lemma secret_rounds:
  "fold (sha1_round
         [0x73656372, 0x65743837, 0x38373739, 0x80000000, 0x00000000, 0x00000000,
           0x00000000, 0x00000000, 0x00000000, 0x00000000, 0x00000000, 0x00000000,
           0x00000000, 0x00000000, 0x00000000, 0x00000060, 0x96A4A896, 0xCAE8706F,
           0x706E6EB2, 0x2D49512C, 0x95D0E0DF, 0xE0DCDD64, 0x5A92A258, 0x2BA1C17F,
           0xECF0EBE4, 0x20F5A46F, 0xB79F5F9A, 0x83737591, 0x6A4A8961, 0xAE87053C,
           0x9E8AFEBE, 0x16067023, 0x497A51F9, 0xB3BCF724, 0x884F43A8, 0x0F395040,
           0x2D687984, 0xDB6AB51F, 0x4FA3CE84, 0x6074D96E, 0x92FEA131, 0xBF33D0BC,
           0x6BDC987A, 0x606703B9, 0xCD37BDCE, 0x106EB0F4, 0xF068C4F5, 0x11F3C74E,
           0x874A0728, 0xE7BD665B, 0xBE10CA31, 0x66FDC39C, 0x9082D92A, 0x2AC02D68,
           0x9790D1B8, 0xBC6C2F6C, 0xA9502616, 0x5EF2C9CD, 0x492F81D3, 0x7F48AD8F,
           0xE65ED3B9, 0xC4E5B602, 0x3FF57FD5, 0x58F8BB81, 0xA9DEBA1A, 0xC08E27BF,
           0x7E8A5292, 0x3557F2C3, 0x4385F928, 0x5987CD28, 0x68C4F570, 0xF3C74811,
           0x204DA1EE, 0x13E16D1B, 0x447891D2, 0x5D6E9141, 0x139E70BF, 0x03C4A2F3,
           0x470343FD, 0xF05F4920])
     [0..<80] (0x67452301, 0xEFCDAB89, 0x98BADCFE, 0x10325476, 0xC3D2E1F0) =
     (0xF46544AE, 0xB66ADBA5, 0xB17D8105, 0x40B1F875, 0x6BF8D4F8)"
  by (simp add: sha1_round_def rotl32 upt_rec)

lemma secret_sha1:
  "sha1
     [0x73, 0x65, 0x63, 0x72, 0x65, 0x74, 0x38, 0x37, 0x38, 0x37, 0x37, 0x39] =
     [0x5B, 0xAA, 0x67, 0xAF, 0xA6, 0x38, 0x87, 0x2E, 0x4A, 0x38, 0x5E, 0x03, 0x50,
       0xE4, 0x4C, 0xEB, 0x2F, 0xCB, 0xB6, 0xE8]"
  by (simp add: sha1_def secret_pad sha1_blocks_unfold sha1_block_def secret_words
      secret_schedule secret_rounds bytes_of32_def drop_bit_eq_div)

lemma secret_hash:
  "sha1_hash
     [0x73, 0x65, 0x63, 0x72, 0x65, 0x74, 0x38, 0x37, 0x38, 0x37, 0x37, 0x39] =
     ustr ''5BAA67AFA638872E4A385E0350E44CEB2FCBB6E8''"
  by (simp add: sha1_hash_def secret_sha1 hexdigest_def hex_digit_def str_upper_def ustr_simps)

lemma password_prefix_suffix:
  "take 5 (ustr ''5BAA61E4C9B93F3F0682250B6CF8331B7EE68FD8'') = ustr ''5BAA6''"
  "drop 5 (ustr ''5BAA61E4C9B93F3F0682250B6CF8331B7EE68FD8'') =
     ustr ''1E4C9B93F3F0682250B6CF8331B7EE68FD8''"
  "api_url @ ustr ''5BAA6'' = ustr ''https://api.pwnedpasswords.com/range/5BAA6''"
  by (simp_all add: ustr_simps api_url_def)

lemma password_run:
  "check_pwned_api env get (ustr ''password'') =
     ([ustr ''https://api.pwnedpasswords.com/range/5BAA6''],
      case get (ustr ''https://api.pwnedpasswords.com/range/5BAA6'') of
        RequestException \<Rightarrow> Inr (False, -1)
      | Response st body \<Rightarrow>
          if st = 200
          then scan_hashes env (ustr ''1E4C9B93F3F0682250B6CF8331B7EE68FD8'') (splitlines body)
          else Inr (False, 0))"
  unfolding check_pwned_api_Some [OF password_bytes] password_hash password_prefix_suffix
  by (rule refl)

lemmas run_simps =
  splitlines_def split_def ustr_simps answers_def unreachable_def py_int_def to_ascii_def
  ascii_space_def ascii_digit_def digits_value_def is_linebreak_def Let_def

section \<open>Properties of the breach lookup\<close>

text \<open>
  C4. The request is made whenever the password can be encoded. When it raises
  \<open>RequestException\<close> (a connection error, a timeout, any exception of that class), the
  call returns \<open>(False, -1)\<close>; when the response has a status other than 200, the call
  returns \<open>(False, 0)\<close>. Neither raises.
\<close>

theorem transport_failure_unknown:
  assumes "check_pwned_api env get pw = (sent, out)"
  shows "(\<forall>bs. utf8_encode pw = Some bs \<longrightarrow> sent = [api_url @ take 5 (sha1_hash bs)])
       \<and> (sent = [url] \<and> get url = RequestException \<longrightarrow> out = Inr (False, -1))
       \<and> (sent = [url] \<and> get url = Response st body \<and> st \<noteq> 200 \<longrightarrow> out = Inr (False, 0))"
proof (cases "utf8_encode pw")
  case None
  with assms show ?thesis by (auto simp: check_pwned_api_None)
next
  case (Some bs)
  with assms show ?thesis by (auto simp: check_pwned_api_Some)
qed

theorem transport_failure_unknown_witness:
  "check_pwned_api sample_env unreachable (ustr ''password'') =
     ([ustr ''https://api.pwnedpasswords.com/range/5BAA6''], Inr (False, -1))
   \<and> check_pwned_api sample_env (answers 503 (ustr ''Service Unavailable'')) (ustr ''password'') =
     ([ustr ''https://api.pwnedpasswords.com/range/5BAA6''], Inr (False, 0))"
proof -
  let ?bs = "[0x70, 0x61, 0x73, 0x73, 0x77, 0x6F, 0x72, 0x64] :: byte list"
  let ?url = "ustr ''https://api.pwnedpasswords.com/range/5BAA6''"
  let ?down = "check_pwned_api sample_env unreachable (ustr ''password'')"
  let ?busy = "check_pwned_api sample_env (answers 503 (ustr ''Service Unavailable''))
                 (ustr ''password'')"
  note D = transport_failure_unknown [OF surjective_pairing, where env = sample_env
      and get = unreachable and pw = "ustr ''password''" and url = ?url]
  note B = transport_failure_unknown [OF surjective_pairing, where env = sample_env
      and get = "answers 503 (ustr ''Service Unavailable'')" and pw = "ustr ''password''"
      and url = ?url and st = 503 and body = "ustr ''Service Unavailable''"]
  from D password_bytes have "fst ?down = [api_url @ take 5 (sha1_hash ?bs)]"
    by blast
  then have d1: "fst ?down = [?url]"
    unfolding password_hash password_prefix_suffix .
  have "unreachable ?url = RequestException"
    by (simp add: unreachable_def)
  with D d1 have d2: "snd ?down = Inr (False, -1)"
    by blast
  from B password_bytes have "fst ?busy = [api_url @ take 5 (sha1_hash ?bs)]"
    by blast
  then have b1: "fst ?busy = [?url]"
    unfolding password_hash password_prefix_suffix .
  have "answers 503 (ustr ''Service Unavailable'') ?url = Response 503 (ustr ''Service Unavailable'')
      \<and> (503 :: int) \<noteq> 200"
    by (simp add: answers_def)
  with B b1 have b2: "snd ?busy = Inr (False, 0)"
    by blast
  from d1 d2 b1 b2 show ?thesis
    by (simp add: prod_eq_iff)
qed

text \<open>
  C5, as amended. On a response with status 200 whose body is made of records of 35
  hexadecimal digits, a colon and a decimal count, one per line, the first record whose
  suffix is the local one decides: the call returns \<open>(True, c)\<close> for its count \<open>c\<close>
  when the count has no more digits than \<open>int\<close> converts (every count of at most 640
  digits has), and raises \<open>ValueError\<close> otherwise. When the suffixes differ from one
  another, that record is the record with the local suffix. The call returns
  \<open>(False, 0)\<close> when no record has the local suffix. When the first record with the
  suffix \<open>0018A45C4D1DEF81644B54AB7F969B88D65\<close> is \<open>0018A45C4D1DEF81644B54AB7F969B88D65:3\<close>,
  a password with that suffix gives \<open>(True, 3)\<close>.
\<close>

theorem range_response_lookup:
  assumes enc: "utf8_encode pw = Some bs"
    and resp: "get (api_url @ take 5 (sha1_hash bs)) = Response 200 body"
    and shape: "body = join_lines sep (map render_record records)
               \<or> (records \<noteq> [] \<and> body = join_lines sep (map render_record records) @ sep)"
    and sep: "sep = [10] \<or> sep = [13, 10]"
    and wf: "\<forall>r\<in>set records. wf_record r"
  shows "snd (check_pwned_api env get pw) =
           (case find (\<lambda>(h, c). h = drop 5 (sha1_hash bs)) records of
              None \<Rightarrow> Inr (False, 0)
            | Some (h, c) \<Rightarrow>
                if within_int_limit env c then Inr (True, int (digits_value c))
                else Inl ValueError)
       \<and> ((\<forall>r\<in>set records. fst r \<noteq> drop 5 (sha1_hash bs)) \<longrightarrow>
            snd (check_pwned_api env get pw) = Inr (False, 0))
       \<and> ((h, c) \<in> set records \<and> h = drop 5 (sha1_hash bs) \<and> distinct (map fst records)
            \<and> within_int_limit env c \<longrightarrow>
            snd (check_pwned_api env get pw) = Inr (True, int (digits_value c)))
       \<and> (length c' \<le> 640 \<longrightarrow> within_int_limit env c')
       \<and> (drop 5 (sha1_hash bs) = ustr ''0018A45C4D1DEF81644B54AB7F969B88D65''
            \<and> find (\<lambda>(h, c). h = ustr ''0018A45C4D1DEF81644B54AB7F969B88D65'') records =
                Some (ustr ''0018A45C4D1DEF81644B54AB7F969B88D65'', ustr ''3'') \<longrightarrow>
            snd (check_pwned_api env get pw) = Inr (True, 3))"
proof -
  have lines: "\<forall>l\<in>set (map render_record records).
      l \<noteq> [] \<and> (\<forall>c\<in>set l. \<not> is_linebreak c)"
    using wf record_line by auto
  have "splitlines body = map render_record records"
    using shape splitlines_join [OF lines sep] by auto
  then have main: "snd (check_pwned_api env get pw) =
      (case find (\<lambda>(h, c). h = drop 5 (sha1_hash bs)) records of
         None \<Rightarrow> Inr (False, 0)
       | Some (h, c) \<Rightarrow>
           if within_int_limit env c then Inr (True, int (digits_value c))
           else Inl ValueError)"
    by (simp add: check_pwned_api_Some [OF enc] resp scan_hashes_records [OF wf])
  show ?thesis
    unfolding main
    by (auto simp: find_none find_distinct within_int_limit_def digits_value_def ustr_simps)
qed

theorem range_response_lookup_witness:
  "snd (check_pwned_api sample_env
          (answers 200 (ustr ''0018A45C4D1DEF81644B54AB7F969B88D65:3'' @ [13, 10]
                        @ ustr ''1E4C9B93F3F0682250B6CF8331B7EE68FD8:3861493''))
          (ustr ''password'')) = Inr (True, 3861493)"
proof -
  let ?bs = "[0x70, 0x61, 0x73, 0x73, 0x77, 0x6F, 0x72, 0x64] :: byte list"
  let ?records = "[(ustr ''0018A45C4D1DEF81644B54AB7F969B88D65'', ustr ''3''),
                   (ustr ''1E4C9B93F3F0682250B6CF8331B7EE68FD8'', ustr ''3861493'')]"
  let ?text = "ustr ''0018A45C4D1DEF81644B54AB7F969B88D65:3'' @ [13, 10]
               @ ustr ''1E4C9B93F3F0682250B6CF8331B7EE68FD8:3861493''"
  have resp: "answers 200 ?text (api_url @ take 5 (sha1_hash ?bs)) = Response 200 ?text"
    by (simp add: answers_def)
  have body: "?text = join_lines [13, 10] (map render_record ?records)
      \<or> (?records \<noteq> [] \<and> ?text = join_lines [13, 10] (map render_record ?records) @ [13, 10])"
    by (simp add: render_record_def ustr_simps)
  have sep: "[13, 10] = [10 :: nat] \<or> [13, 10] = [13, 10 :: nat]"
    by simp
  have wf: "\<forall>r\<in>set ?records. wf_record r"
    by (simp add: wf_record_def decimal_count_def is_hex_upper_def ascii_digit_def ustr_simps)
  have "snd (check_pwned_api sample_env (answers 200 ?text) (ustr ''password'')) =
      (case find (\<lambda>(h, c). h = drop 5 (sha1_hash ?bs)) ?records of
         None \<Rightarrow> Inr (False, 0)
       | Some (h, c) \<Rightarrow>
           if within_int_limit sample_env c then Inr (True, int (digits_value c))
           else Inl ValueError)"
    using range_response_lookup [where get = "answers 200 ?text" and env = sample_env,
        OF password_bytes resp body sep wf] by blast
  also have "\<dots> = Inr (True, 3861493)"
    unfolding password_hash password_prefix_suffix
    by (simp add: ustr_simps digits_value_def within_int_limit_def)
  finally show ?thesis .
qed

text \<open>
  C5, as stated, fails twice for \<open>password\<close>, whose suffix is
  \<open>1E4C9B93F3F0682250B6CF8331B7EE68FD8\<close>. When two records have that suffix, with the
  counts 5 and 3, the call returns \<open>(True, 5)\<close>, not the count 3 of the second one. When
  the count of the record is 4301 nines and the interpreter converts at most 4300 digits,
  the call raises \<open>ValueError\<close>.
\<close>

theorem range_response_first_count_or_error:
  "snd (check_pwned_api sample_env
          (answers 200 (ustr ''1E4C9B93F3F0682250B6CF8331B7EE68FD8:5'' @ [10]
                        @ ustr ''1E4C9B93F3F0682250B6CF8331B7EE68FD8:3''))
          (ustr ''password'')) = Inr (True, 5)
   \<and> max_str_digits sample_env = 4300
   \<and> snd (check_pwned_api sample_env
            (answers 200 (ustr ''1E4C9B93F3F0682250B6CF8331B7EE68FD8:'' @ replicate 4301 57))
            (ustr ''password'')) = Inl ValueError"
proof -
  let ?s = "ustr ''1E4C9B93F3F0682250B6CF8331B7EE68FD8''"
  let ?long = "ustr ''1E4C9B93F3F0682250B6CF8331B7EE68FD8:'' @ replicate 4301 57"
  have first: "snd (check_pwned_api sample_env
      (answers 200 (ustr ''1E4C9B93F3F0682250B6CF8331B7EE68FD8:5'' @ [10]
                    @ ustr ''1E4C9B93F3F0682250B6CF8331B7EE68FD8:3''))
      (ustr ''password'')) = Inr (True, 5)"
    unfolding password_run by (simp add: run_simps)
  have line: "?long = render_record (?s, replicate 4301 57)"
    by (simp add: render_record_def ustr_simps)
  have nb: "\<forall>c\<in>set ?long. \<not> is_linebreak c"
    by (simp add: ustr_simps is_linebreak_def)
  have "splitlines ?long = [?long]"
    using splitlines_from_last [of ?long "[]"] nb by (simp add: splitlines_def ustr_simps)
  moreover have "split 58 ?long = [?s, replicate 4301 57]"
    unfolding line by (rule split_record) (simp_all add: ustr_simps)
  ultimately have "scan_hashes sample_env ?s (splitlines ?long) = Inl ValueError"
    by (simp add: py_int_over_limit)
  then have long: "snd (check_pwned_api sample_env (answers 200 ?long) (ustr ''password''))
      = Inl ValueError"
    unfolding password_run by (simp add: answers_def)
  have "max_str_digits sample_env = 4300"
    by (simp add: sample_env_def)
  with first long show ?thesis by simp
qed

text \<open>
  C6. The URL requested is the base URL followed by the first five characters of the
  digest in uppercase hexadecimal, and nothing is requested when the password cannot be
  encoded. The five characters are hexadecimal digits. The request does not depend on the
  responses or on the interpreter's tables, and two passwords whose digests start with
  the same five characters make the same request: it carries nothing of the other 35
  characters or of the password itself.
\<close>

theorem only_prefix_sent:
  "fst (check_pwned_api env get pw) =
     (case utf8_encode pw of None \<Rightarrow> [] | Some bs \<Rightarrow> [api_url @ take 5 (sha1_hash bs)])
   \<and> (\<forall>bs. utf8_encode pw = Some bs \<longrightarrow>
         length (sha1_hash bs) = 40
         \<and> length (take 5 (sha1_hash bs)) = 5
         \<and> list_all is_hex_upper (take 5 (sha1_hash bs))
         \<and> (\<forall>url\<in>set (fst (check_pwned_api env get pw)).
               drop (length api_url) url = take 5 (sha1_hash bs)))
   \<and> fst (check_pwned_api env' get' pw) = fst (check_pwned_api env get pw)
   \<and> (utf8_encode pw = Some b \<and> utf8_encode pw' = Some b'
        \<and> take 5 (sha1_hash b) = take 5 (sha1_hash b') \<longrightarrow>
        fst (check_pwned_api env get pw) = fst (check_pwned_api env' get' pw'))"
proof -
  have hex: "list_all is_hex_upper (take 5 (sha1_hash bs))" for bs
    using sha1_hash_hex [of bs] by (auto simp: list_all_iff dest: in_set_takeD)
  show ?thesis
    by (cases "utf8_encode pw")
      (auto simp: check_pwned_api_None check_pwned_api_Some sha1_hash_length hex)
qed

theorem only_prefix_sent_witness:
  "fst (check_pwned_api sample_env unreachable (ustr ''password'')) =
     [ustr ''https://api.pwnedpasswords.com/range/5BAA6'']
   \<and> fst (check_pwned_api sample_env (answers 200 []) (ustr ''secret878779'')) =
     [ustr ''https://api.pwnedpasswords.com/range/5BAA6'']"
proof -
  let ?b = "[0x70, 0x61, 0x73, 0x73, 0x77, 0x6F, 0x72, 0x64] :: byte list"
  let ?b' = "[0x73, 0x65, 0x63, 0x72, 0x65, 0x74, 0x38, 0x37, 0x38, 0x37, 0x37, 0x39] :: byte list"
  note T = only_prefix_sent [where env = sample_env and get = unreachable
      and pw = "ustr ''password''" and env' = sample_env and get' = "answers 200 []"
      and b = ?b and pw' = "ustr ''secret878779''" and b' = ?b']
  have same: "take 5 (sha1_hash ?b) = take 5 (sha1_hash ?b')"
    by (simp add: password_hash secret_hash ustr_simps)
  from T have "fst (check_pwned_api sample_env unreachable (ustr ''password'')) =
      [api_url @ take 5 (sha1_hash ?b)]"
    by (simp add: password_bytes)
  then have one: "fst (check_pwned_api sample_env unreachable (ustr ''password'')) =
      [ustr ''https://api.pwnedpasswords.com/range/5BAA6'']"
    by (simp add: password_hash password_prefix_suffix)
  from T password_bytes secret_bytes same
  have "fst (check_pwned_api sample_env unreachable (ustr ''password'')) =
      fst (check_pwned_api sample_env (answers 200 []) (ustr ''secret878779''))"
    by blast
  with one show ?thesis by simp
qed

text \<open>
  C2, as amended. On a response with status 200, the loop passes over each line that has
  exactly one colon and whose first part is not the local suffix, without reading its
  count; the first other line decides. A line without exactly one colon raises
  \<open>ValueError\<close> out of the call, and so does a line with the local suffix whose count
  \<open>int\<close> rejects: only \<open>RequestException\<close> is caught.
\<close>

theorem unparsable_record_raises:
  assumes enc: "utf8_encode pw = Some bs"
    and resp: "get (api_url @ take 5 (sha1_hash bs)) = Response 200 body"
  shows "snd (check_pwned_api env get pw) =
           (case dropWhile (passed_over (drop 5 (sha1_hash bs))) (splitlines body) of
              [] \<Rightarrow> Inr (False, 0)
            | line # _ \<Rightarrow>
                (case split 58 line of
                   [h, count] \<Rightarrow>
                     (case py_int env count of Inl e \<Rightarrow> Inl e | Inr n \<Rightarrow> Inr (True, n))
                 | _ \<Rightarrow> Inl ValueError))
       \<and> (58 \<notin> set h \<and> 58 \<notin> set count \<and> h \<noteq> drop 5 (sha1_hash bs) \<longrightarrow>
            passed_over (drop 5 (sha1_hash bs)) (h @ 58 # count))
       \<and> (splitlines body = pre @ line # post
            \<and> list_all (passed_over (drop 5 (sha1_hash bs))) pre
            \<and> length (split 58 line) \<noteq> 2 \<longrightarrow>
            snd (check_pwned_api env get pw) = Inl ValueError)
       \<and> (splitlines body = pre @ line # post
            \<and> list_all (passed_over (drop 5 (sha1_hash bs))) pre
            \<and> split 58 line = [drop 5 (sha1_hash bs), cnt] \<and> py_int env cnt = Inl e \<longrightarrow>
            snd (check_pwned_api env get pw) = Inl e)"
proof -
  let ?s = "drop 5 (sha1_hash bs)"
  have main: "snd (check_pwned_api env get pw) = scan_hashes env ?s (splitlines body)"
    by (simp add: check_pwned_api_Some [OF enc] resp)
  have a: "passed_over ?s (h @ 58 # count)"
    if "58 \<notin> set h \<and> 58 \<notin> set count \<and> h \<noteq> ?s"
    using that split_record [of h count] by (simp add: passed_over_def render_record_def)
  have b: "scan_hashes env ?s (splitlines body) = Inl ValueError"
    if "splitlines body = pre @ line # post \<and> list_all (passed_over ?s) pre
        \<and> length (split 58 line) \<noteq> 2"
  proof -
    from that have np: "\<not> passed_over ?s line"
      by (auto simp: passed_over_def split: list.splits)
    with that have "dropWhile (passed_over ?s) (splitlines body) = line # post"
      by (simp add: dropWhile_prefix)
    with that show ?thesis
      by (auto simp: scan_hashes_decisive split: list.splits)
  qed
  have c: "scan_hashes env ?s (splitlines body) = Inl e"
    if "splitlines body = pre @ line # post \<and> list_all (passed_over ?s) pre
        \<and> split 58 line = [?s, cnt] \<and> py_int env cnt = Inl e"
  proof -
    from that have np: "\<not> passed_over ?s line"
      by (simp add: passed_over_def)
    with that have "dropWhile (passed_over ?s) (splitlines body) = line # post"
      by (simp add: dropWhile_prefix)
    with that show ?thesis
      by (simp add: scan_hashes_decisive)
  qed
  show ?thesis
    unfolding main using a b c by (simp add: scan_hashes_decisive)
qed

theorem unparsable_record_raises_witness:
  "passed_over (ustr ''1E4C9B93F3F0682250B6CF8331B7EE68FD8'')
     (ustr ''0018A45C4D1DEF81644B54AB7F969B88D65:x'')
   \<and> splitlines (ustr ''0018A45C4D1DEF81644B54AB7F969B88D65:x'' @ [10] @ ustr ''1E4C9B:3:4'') =
       [ustr ''0018A45C4D1DEF81644B54AB7F969B88D65:x'', ustr ''1E4C9B:3:4'']
   \<and> length (split 58 (ustr ''1E4C9B:3:4'')) = 3
   \<and> snd (check_pwned_api sample_env
            (answers 200 (ustr ''0018A45C4D1DEF81644B54AB7F969B88D65:x'' @ [10]
                          @ ustr ''1E4C9B:3:4''))
            (ustr ''password'')) = Inl ValueError"
proof -
  let ?bs = "[0x70, 0x61, 0x73, 0x73, 0x77, 0x6F, 0x72, 0x64] :: byte list"
  let ?l1 = "ustr ''0018A45C4D1DEF81644B54AB7F969B88D65:x''"
  let ?l2 = "ustr ''1E4C9B:3:4''"
  let ?text = "?l1 @ [10] @ ?l2"
  have s: "drop 5 (sha1_hash ?bs) = ustr ''1E4C9B93F3F0682250B6CF8331B7EE68FD8''"
    by (simp add: password_hash password_prefix_suffix)
  have resp: "answers 200 ?text (api_url @ take 5 (sha1_hash ?bs)) = Response 200 ?text"
    by (simp add: answers_def)
  have h1: "passed_over (ustr ''1E4C9B93F3F0682250B6CF8331B7EE68FD8'') ?l1"
    by (simp add: passed_over_def split_def ustr_simps)
  have h2: "splitlines ?text = [?l1] @ ?l2 # []"
    by (simp add: splitlines_def ustr_simps is_linebreak_def)
  have h3: "length (split 58 ?l2) = 3"
    by (simp add: split_def ustr_simps)
  from unparsable_record_raises [where get = "answers 200 ?text" and env = sample_env
      and pre = "[?l1]" and line = ?l2 and post = "[]", OF password_bytes resp]
  have "splitlines ?text = [?l1] @ ?l2 # []
      \<and> list_all (passed_over (drop 5 (sha1_hash ?bs))) [?l1]
      \<and> length (split 58 ?l2) \<noteq> 2 \<longrightarrow>
      snd (check_pwned_api sample_env (answers 200 ?text) (ustr ''password'')) = Inl ValueError"
    by blast
  moreover have "list_all (passed_over (drop 5 (sha1_hash ?bs))) [?l1]"
    unfolding s using h1 by simp
  ultimately have
    "snd (check_pwned_api sample_env (answers 200 ?text) (ustr ''password'')) = Inl ValueError"
    using h2 h3 by simp
  with h1 h2 h3 show ?thesis by simp
qed

text \<open>
  C2, as stated, fails: a body whose only line has no colon, and a body whose matching
  record has a count that is no number, both end the call for \<open>password\<close> with
  \<open>ValueError\<close>.
\<close>

theorem unparsable_line_not_skipped:
  "snd (check_pwned_api sample_env (answers 200 (ustr ''garbage'')) (ustr ''password'')) =
     Inl ValueError
   \<and> snd (check_pwned_api sample_env
            (answers 200 (ustr ''1E4C9B93F3F0682250B6CF8331B7EE68FD8:many''))
            (ustr ''password'')) = Inl ValueError"
  unfolding password_run by (simp add: run_simps)

text \<open>
  C7, as amended. A negative count in the result comes in two ways only. Either
  \<open>found = False\<close>, the count is -1 and the request raised \<open>RequestException\<close>. Or
  \<open>found = True\<close>, the response had the status 200, and the first line that the loop
  does not pass over is a record with the local suffix whose count has a minus sign and is
  read by \<open>int\<close> as that negative number. The second way is real: whenever the first
  line that the loop does not pass over is a record with the local suffix whose count
  \<open>int\<close> reads as a number, the call returns that number with \<open>found = True\<close>,
  whatever its sign. So a negative count implies \<open>found = False\<close> except after a
  matching record with a negative count.
\<close>

theorem negative_count_only_unknown:
  "(check_pwned_api env get pw = (sent, Inr (found, n)) \<and> n < 0 \<longrightarrow>
      (\<not> found \<and> n = -1 \<and> (\<exists>url. sent = [url] \<and> get url = RequestException))
      \<or> (found \<and> (\<exists>bs body line rest count.
            utf8_encode pw = Some bs
            \<and> get (api_url @ take 5 (sha1_hash bs)) = Response 200 body
            \<and> dropWhile (passed_over (drop 5 (sha1_hash bs))) (splitlines body) = line # rest
            \<and> split 58 line = [drop 5 (sha1_hash bs), count]
            \<and> 45 \<in> set count \<and> py_int env count = Inr n)))
   \<and> (utf8_encode pw = Some b
        \<and> get (api_url @ take 5 (sha1_hash b)) = Response 200 reply
        \<and> dropWhile (passed_over (drop 5 (sha1_hash b))) (splitlines reply) = l # ls
        \<and> split 58 l = [drop 5 (sha1_hash b), cnt] \<and> py_int env cnt = Inr m \<longrightarrow>
        snd (check_pwned_api env get pw) = Inr (True, m))"
proof (intro conjI impI)
  assume a: "check_pwned_api env get pw = (sent, Inr (found, n)) \<and> n < 0"
  then have run: "check_pwned_api env get pw = (sent, Inr (found, n))" and neg: "n < 0"
    by simp_all
  show "(\<not> found \<and> n = -1 \<and> (\<exists>url. sent = [url] \<and> get url = RequestException))
      \<or> (found \<and> (\<exists>bs body line rest count.
            utf8_encode pw = Some bs
            \<and> get (api_url @ take 5 (sha1_hash bs)) = Response 200 body
            \<and> dropWhile (passed_over (drop 5 (sha1_hash bs))) (splitlines body) = line # rest
            \<and> split 58 line = [drop 5 (sha1_hash bs), count]
            \<and> 45 \<in> set count \<and> py_int env count = Inr n))"
  proof (cases "utf8_encode pw")
    case None
    with run show ?thesis by (simp add: check_pwned_api_None)
  next
    case (Some bs)
    let ?url = "api_url @ take 5 (sha1_hash bs)"
    let ?s = "drop 5 (sha1_hash bs)"
    from run Some have sent: "sent = [?url]"
      by (simp add: check_pwned_api_Some)
    show ?thesis
    proof (cases "get ?url")
      case RequestException
      with run Some sent show ?thesis by (simp add: check_pwned_api_Some)
    next
      case (Response st body)
      with run Some have out:
        "(if st = 200 then scan_hashes env ?s (splitlines body) else Inr (False, 0))
         = Inr (found, n)"
        by (simp add: check_pwned_api_Some)
      with neg have st: "st = 200" and scan: "scan_hashes env ?s (splitlines body) = Inr (found, n)"
        by (auto split: if_splits)
      from scan neg obtain line rest
        where dw: "dropWhile (passed_over ?s) (splitlines body) = line # rest"
        unfolding scan_hashes_decisive by (auto split: list.splits)
      have np: "\<not> passed_over ?s line"
        using dw by (rule dropWhile_head)
      have two: "\<exists>h count. split 58 line = [h, count]"
      proof (rule ccontr)
        assume "\<not> ?thesis"
        then have "scan_hashes env ?s (line # rest) = Inl ValueError"
          using scan_hashes_Cons_other by blast
        moreover have "scan_hashes env ?s (splitlines body) = scan_hashes env ?s (line # rest)"
          using dw by (simp add: scan_hashes_decisive np)
        ultimately show False using scan by simp
      qed
      then obtain h count where sp: "split 58 line = [h, count]" by blast
      with np have h: "h = ?s" by (auto simp: passed_over_iff)
      have "scan_hashes env ?s (splitlines body) =
          (case py_int env count of Inl e \<Rightarrow> Inl e | Inr k \<Rightarrow> Inr (True, k))"
        using dw sp by (simp add: scan_hashes_decisive)
      with scan have res: "found" "py_int env count = Inr n"
        by (auto split: sum.splits)
      have "45 \<in> set count"
        using py_int_nonneg [OF _ res(2)] neg by fastforce
      with Some Response st dw sp h res show ?thesis
        by blast
    qed
  qed
next
  assume "utf8_encode pw = Some b
      \<and> get (api_url @ take 5 (sha1_hash b)) = Response 200 reply
      \<and> dropWhile (passed_over (drop 5 (sha1_hash b))) (splitlines reply) = l # ls
      \<and> split 58 l = [drop 5 (sha1_hash b), cnt] \<and> py_int env cnt = Inr m"
  then show "snd (check_pwned_api env get pw) = Inr (True, m)"
    by (simp add: check_pwned_api_Some scan_hashes_decisive)
qed

text \<open>
  Two runs for \<open>password\<close>. A server that cannot be reached: the count is -1 and
  nothing was found. A body whose first record has another suffix and the count -5, and
  whose second record has the local suffix and the count 3: the minus sign of the first
  record is never read, and the call returns \<open>(True, 3)\<close>.
\<close>

theorem negative_count_only_unknown_witness:
  "check_pwned_api sample_env unreachable (ustr ''password'') =
     ([ustr ''https://api.pwnedpasswords.com/range/5BAA6''], Inr (False, -1))
   \<and> unreachable (ustr ''https://api.pwnedpasswords.com/range/5BAA6'') = RequestException
   \<and> snd (check_pwned_api sample_env
            (answers 200 (ustr ''0018A45C4D1DEF81644B54AB7F969B88D65:-5'' @ [10]
                          @ ustr ''1E4C9B93F3F0682250B6CF8331B7EE68FD8:3''))
            (ustr ''password'')) = Inr (True, 3)"
proof -
  let ?bs = "[0x70, 0x61, 0x73, 0x73, 0x77, 0x6F, 0x72, 0x64] :: byte list"
  let ?url = "ustr ''https://api.pwnedpasswords.com/range/5BAA6''"
  let ?s = "ustr ''1E4C9B93F3F0682250B6CF8331B7EE68FD8''"
  let ?l1 = "ustr ''0018A45C4D1DEF81644B54AB7F969B88D65:-5''"
  let ?l2 = "ustr ''1E4C9B93F3F0682250B6CF8331B7EE68FD8:3''"
  let ?reply = "?l1 @ [10] @ ?l2"
  have run: "check_pwned_api sample_env unreachable (ustr ''password'') =
      ([?url], Inr (False, -1)) \<and> (-1 :: int) < 0"
    unfolding password_run by (simp add: unreachable_def)
  note D = negative_count_only_unknown [where env = sample_env and get = unreachable
      and pw = "ustr ''password''" and sent = "[?url]" and found = False and n = "-1"]
  from D run have "\<exists>url. [?url] = [url] \<and> unreachable url = RequestException"
    by blast
  then have down: "unreachable ?url = RequestException"
    by simp
  have s: "drop 5 (sha1_hash ?bs) = ?s"
    by (simp add: password_hash password_prefix_suffix)
  have resp: "answers 200 ?reply (api_url @ take 5 (sha1_hash ?bs)) = Response 200 ?reply"
    by (simp add: answers_def)
  have lines: "splitlines ?reply = [?l1, ?l2]"
    by (simp add: splitlines_def ustr_simps is_linebreak_def)
  have "passed_over ?s ?l1" "\<not> passed_over ?s ?l2"
    by (simp_all add: passed_over_def split_def ustr_simps)
  then have dw: "dropWhile (passed_over (drop 5 (sha1_hash ?bs))) (splitlines ?reply) = ?l2 # []"
    unfolding s lines by simp
  have sp: "split 58 ?l2 = [drop 5 (sha1_hash ?bs), ustr ''3'']"
    unfolding s by (simp add: split_def ustr_simps)
  have three: "py_int sample_env (ustr ''3'') = Inr 3"
    by (simp add: run_simps)
  note A = negative_count_only_unknown [where env = sample_env and get = "answers 200 ?reply"
      and pw = "ustr ''password''" and b = ?bs and reply = ?reply and l = ?l2 and ls = "[]"
      and cnt = "ustr ''3''" and m = 3]
  from A password_bytes resp dw sp three
  have "snd (check_pwned_api sample_env (answers 200 ?reply) (ustr ''password'')) = Inr (True, 3)"
    by blast
  with run down show ?thesis by simp
qed

text \<open>
  C7, as stated, fails: the count of the matching record is returned as \<open>int\<close> reads
  it, so the record \<open>1E4C9B93F3F0682250B6CF8331B7EE68FD8:-1\<close> makes the call for
  \<open>password\<close> return \<open>(True, -1)\<close>.
\<close>

theorem negative_count_found:
  "check_pwned_api sample_env
     (answers 200 (ustr ''1E4C9B93F3F0682250B6CF8331B7EE68FD8:-1'')) (ustr ''password'') =
     ([ustr ''https://api.pwnedpasswords.com/range/5BAA6''], Inr (True, -1))"
  unfolding password_run by (simp add: run_simps)


end
